theory Spec2Isabelle
  imports Complex_Main "HOL-Library.Sublist"
begin

section \<open>Python values and records\<close>

text \<open>
  The planning records of \<^verbatim>\<open>integrated_planning_system.py\<close> and
  \<^verbatim>\<open>oslo_planning_system.py\<close> are Python dictionaries with string keys whose values
  come from JSON and from the text analysers: \<^verbatim>\<open>None\<close>, booleans, integers, strings,
  lists and nested dictionaries. A dictionary keeps its insertion order, so it is an
  association list.  Floating point numbers are left out: the relevance score the
  analysers compute is an integer count.

  A Python \<^verbatim>\<open>str\<close> is a sequence of code points; a \<^typ>\<open>char\<close> is the code point of
  one Latin-1 character (0 to 255), which covers the Norwegian letters of the titles and
  of the area names.
\<close>

datatype pyval =
    PNone
  | PBool bool
  | PInt int
  | PStr string
  | PList "pyval list"
  | PDict "(string \<times> pyval) list"

type_synonym pydict = "(string \<times> pyval) list"

datatype py_error = AttributeError | TypeError

text \<open>\<^verbatim>\<open>k in d\<close>, \<^verbatim>\<open>d.get(k, default)\<close> and \<^verbatim>\<open>d[k] = v\<close> (an existing key keeps its
  position, a new key goes last).\<close>

definition has_key :: "(string \<times> 'v) list \<Rightarrow> string \<Rightarrow> bool" where
  "has_key d k = (map_of d k \<noteq> None)"

definition dict_get :: "pydict \<Rightarrow> string \<Rightarrow> pyval \<Rightarrow> pyval" where
  "dict_get d k dflt = (case map_of d k of None \<Rightarrow> dflt | Some v \<Rightarrow> v)"

fun dict_set :: "(string \<times> 'v) list \<Rightarrow> string \<Rightarrow> 'v \<Rightarrow> (string \<times> 'v) list" where
  "dict_set [] k v = [(k, v)]"
| "dict_set ((k', v') # d) k v = (if k' = k then (k, v) # d else (k', v') # dict_set d k v)"

text \<open>Truth value testing (\<^verbatim>\<open>if value:\<close>).\<close>

fun truthy :: "pyval \<Rightarrow> bool" where
  "truthy PNone = False"
| "truthy (PBool b) = b"
| "truthy (PInt i) = (i \<noteq> 0)"
| "truthy (PStr s) = (s \<noteq> [])"
| "truthy (PList xs) = (xs \<noteq> [])"
| "truthy (PDict d) = (d \<noteq> [])"

text \<open>A field is populated when it is present with a true value.\<close>

definition populated :: "pydict \<Rightarrow> string \<Rightarrow> bool" where
  "populated d k = (case map_of d k of None \<Rightarrow> False | Some v \<Rightarrow> truthy v)"

section \<open>Strings\<close>

text \<open>\<^verbatim>\<open>str.lower()\<close> on Latin-1: A to Z and the accented capitals (all of 0xC0 to 0xDE
  but the multiplication sign 0xD7) move up by 32.\<close>

definition py_lower_char :: "char \<Rightarrow> char" where
  "py_lower_char c =
     (let n = (of_char c :: nat)
      in if (65 \<le> n \<and> n \<le> 90) \<or> (192 \<le> n \<and> n \<le> 222 \<and> n \<noteq> 215)
         then char_of (n + 32) else c)"

definition py_lower :: "string \<Rightarrow> string" where
  "py_lower s = map py_lower_char s"

text \<open>\<^verbatim>\<open>value.lower()\<close> on a value read from a record: anything but a string has no such
  method.\<close>

fun lower_of :: "pyval \<Rightarrow> py_error + string" where
  "lower_of (PStr s) = Inr (py_lower s)"
| "lower_of _ = Inl AttributeError"

text \<open>The characters the regular expression \<^verbatim>\<open>\w\<close> matches in a \<^verbatim>\<open>str\<close> pattern:
  the underscore and every alphanumeric code point.\<close>

definition is_word_char :: "char \<Rightarrow> bool" where
  "is_word_char c =
     (let n = (of_char c :: nat)
      in (48 \<le> n \<and> n \<le> 57) \<or> (65 \<le> n \<and> n \<le> 90) \<or> n = 95 \<or> (97 \<le> n \<and> n \<le> 122)
         \<or> n = 170 \<or> n = 178 \<or> n = 179 \<or> n = 181 \<or> n = 185 \<or> n = 186
         \<or> (188 \<le> n \<and> n \<le> 190) \<or> (192 \<le> n \<and> n \<le> 214) \<or> (216 \<le> n \<and> n \<le> 246)
         \<or> 248 \<le> n)"

text \<open>\<^verbatim>\<open>re.findall(r'\w+', s)\<close>: the maximal runs of word characters, left to right.
  The first argument is the run being read.\<close>

fun findall_words :: "string \<Rightarrow> string \<Rightarrow> string list" where
  "findall_words cur [] = (if cur = [] then [] else [cur])"
| "findall_words cur (c # cs) =
     (if is_word_char c then findall_words (cur @ [c]) cs
      else (if cur = [] then [] else [cur]) @ findall_words [] cs)"

text \<open>\<^verbatim>\<open>sep.join(parts)\<close>.\<close>

fun join :: "string \<Rightarrow> string list \<Rightarrow> string" where
  "join sep [] = []"
| "join sep [x] = x"
| "join sep (x # y # ys) = x @ sep @ join sep (y # ys)"

text \<open>\<^verbatim>\<open>p in s\<close> for two strings: \<open>p\<close> occurs in \<open>s\<close> as a contiguous block.\<close>

fun is_substr :: "string \<Rightarrow> string \<Rightarrow> bool" where
  "is_substr p [] = (p = [])"
| "is_substr p (c # cs) = (prefix p (c # cs) \<or> is_substr p cs)"

text \<open>\<^verbatim>\<open>str(n)\<close> for a natural number.\<close>

fun str_of_nat :: "nat \<Rightarrow> string" where
  "str_of_nat n =
     (if n < 10 then [''0123456789'' ! n]
      else str_of_nat (n div 10) @ [''0123456789'' ! (n mod 10)])"

declare str_of_nat.simps [simp del]

section \<open>Built-in functions taken as parameters\<close>

text \<open>
  Two built-ins of the interpreter are not part of the repository and are passed to the
  model: \<^verbatim>\<open>hash\<close> on strings, which CPython seeds anew for every process unless
  \<^verbatim>\<open>PYTHONHASHSEED\<close> fixes it, and \<^verbatim>\<open>repr\<close>, which \<^verbatim>\<open>str(item)\<close> and an f-string use for
  a value that is not a string.
\<close>

record builtins =
  py_hash :: "string \<Rightarrow> int"
  py_repr :: "pyval \<Rightarrow> string"

text \<open>\<^verbatim>\<open>str(v)\<close>, also the text an f-string puts for \<^verbatim>\<open>{v}\<close>.\<close>

definition py_str :: "builtins \<Rightarrow> pyval \<Rightarrow> string" where
  "py_str bi v = (case v of PStr s \<Rightarrow> s | _ \<Rightarrow> py_repr bi v)"

text \<open>\<^verbatim>\<open>hash(s) % 1000\<close> written into an f-string: Python's remainder by a positive
  number is never negative.\<close>

definition hash_mod_1000 :: "builtins \<Rightarrow> string \<Rightarrow> string" where
  "hash_mod_1000 bi s = str_of_nat (nat (py_hash bi s mod 1000))"

section \<open>Record key generators\<close>

text \<open>\<^verbatim>\<open>IntegratedPlanningSystem.generate_plan_key\<close>.  \<^verbatim>\<open>'_'.join\<close> raises a
  \<^verbatim>\<open>TypeError\<close> for a part that is not a string.\<close>

definition generate_plan_key :: "pydict \<Rightarrow> py_error + string" where
  "generate_plan_key plan =
     (case lower_of (dict_get plan ''municipality'' (PStr ''unknown'')) of
        Inl e \<Rightarrow> Inl e
      | Inr municipality \<Rightarrow>
     (case lower_of (dict_get plan ''title'' (PStr '''')) of
        Inl e \<Rightarrow> Inl e
      | Inr title \<Rightarrow>
          let plan_id = dict_get plan ''plan_id'' (PStr '''')
          in if truthy plan_id
             then (case plan_id of
                     PStr s \<Rightarrow> Inr (join ''_'' [municipality, s])
                   | _ \<Rightarrow> Inl TypeError)
             else Inr (join ''_'' (municipality # take 3 (findall_words [] title)))))"

text \<open>The area names of \<^verbatim>\<open>self.oslo_keywords\<close> in \<^verbatim>\<open>OsloPlanningSystem\<close> (the list
  under its first key, the Norwegian word for areas): sixteen names, where 0xFC is u with
  diaeresis and 0xF8 is o with stroke.\<close>

definition oslo_keywords_omrader :: "string list" where
  "oslo_keywords_omrader =
     [''sentrum'', ''gr'' @ [CHR 0xFC] @ ''nerl'' @ [CHR 0xF8] @ ''kka'', ''frogner'',
      ''gamle oslo'', ''st. hanshaugen'', ''sagene'', ''ullern'', ''vestre aker'',
      ''nordre aker'', ''bjerke'', ''grorud'', ''stovner'', ''alna'',
      [CHR 0xF8] @ ''stensj'' @ [CHR 0xF8], ''nordstrand'',
      ''s'' @ [CHR 0xF8] @ ''ndre nordstrand'']"

text \<open>The loop \<^verbatim>\<open>for area in ...: if area in title: return ...\<close>: the first area
  name that occurs in the title, if there is one.\<close>

definition first_area_in :: "string \<Rightarrow> string option" where
  "first_area_in title = find (\<lambda>area. is_substr area title) oslo_keywords_omrader"

text \<open>\<^verbatim>\<open>OsloPlanningSystem.generate_oslo_key\<close>.  The title is lowercased before
  \<^verbatim>\<open>plan_id\<close> is looked at.\<close>

definition generate_oslo_key :: "builtins \<Rightarrow> pydict \<Rightarrow> py_error + string" where
  "generate_oslo_key bi item =
     (let plan_id = dict_get item ''plan_id'' (PStr '''')
      in case lower_of (dict_get item ''title'' (PStr '''')) of
           Inl e \<Rightarrow> Inl e
         | Inr title \<Rightarrow>
             if truthy plan_id then Inr (''oslo_'' @ py_str bi plan_id)
             else (case (if title \<noteq> [] then first_area_in title else None) of
                     Some area \<Rightarrow> Inr (''oslo_'' @ area @ ''_'' @ hash_mod_1000 bi title)
                   | None \<Rightarrow>
                       Inr (''oslo_general_'' @ hash_mod_1000 bi (py_str bi (PDict item)))))"

section \<open>Equality, membership, iteration and maximum of values\<close>

text \<open>A boolean counts as the integer 0 or 1 wherever Python compares numbers
  (\<^verbatim>\<open>isinstance(True, int)\<close> holds).\<close>

fun num_of :: "pyval \<Rightarrow> int option" where
  "num_of (PBool b) = Some (if b then 1 else 0)"
| "num_of (PInt i) = Some i"
| "num_of _ = None"

text \<open>\<^verbatim>\<open>a == b\<close>: numbers by value, strings and lists element by element, dictionaries
  by their keys and values whatever the order.\<close>

fun py_eq :: "pyval \<Rightarrow> pyval \<Rightarrow> bool" where
  "py_eq PNone PNone = True"
| "py_eq (PBool a) (PBool b) = (a = b)"
| "py_eq (PBool a) (PInt j) = ((if a then 1 else 0) = j)"
| "py_eq (PInt i) (PBool b) = (i = (if b then 1 else 0))"
| "py_eq (PInt i) (PInt j) = (i = j)"
| "py_eq (PStr s) (PStr t) = (s = t)"
| "py_eq (PList xs) (PList ys) = list_all2 py_eq xs ys"
| "py_eq (PDict a) (PDict b) =
     (length a = length b \<and>
      list_all (\<lambda>(k, v). case map_of b k of None \<Rightarrow> False | Some w \<Rightarrow> py_eq v w) a)"
| "py_eq _ _ = False"

text \<open>\<^verbatim>\<open>x in c\<close>.  A list compares its elements with \<^verbatim>\<open>==\<close>; a string accepts only a
  string on the left; a dictionary looks the key up, which needs a hashable value;
  \<^verbatim>\<open>None\<close> and numbers are not containers.\<close>

fun py_in :: "pyval \<Rightarrow> pyval \<Rightarrow> py_error + bool" where
  "py_in x (PList xs) = Inr (list_ex (py_eq x) xs)"
| "py_in (PStr p) (PStr s) = Inr (is_substr p s)"
| "py_in x (PStr s) = Inl TypeError"
| "py_in (PStr k) (PDict d) = Inr (has_key d k)"
| "py_in (PList xs) (PDict d) = Inl TypeError"
| "py_in (PDict e) (PDict d) = Inl TypeError"
| "py_in x (PDict d) = Inr False"
| "py_in x PNone = Inl TypeError"
| "py_in x (PBool b) = Inl TypeError"
| "py_in x (PInt i) = Inl TypeError"

text \<open>The elements an iteration over a value yields (\<^verbatim>\<open>list.extend\<close>, \<^verbatim>\<open>set.update\<close>):
  a list's elements, a string's characters, a dictionary's keys.\<close>

fun py_iter :: "pyval \<Rightarrow> py_error + pyval list" where
  "py_iter (PList xs) = Inr xs"
| "py_iter (PStr s) = Inr (map (\<lambda>c. PStr [c]) s)"
| "py_iter (PDict d) = Inr (map (\<lambda>(k, v). PStr k) d)"
| "py_iter _ = Inl TypeError"

text \<open>\<^verbatim>\<open>max(a, b)\<close>: the second argument only when it is strictly greater; numbers do
  not compare with anything else.\<close>

definition py_max :: "pyval \<Rightarrow> pyval \<Rightarrow> py_error + pyval" where
  "py_max a b =
     (case (num_of a, num_of b) of
        (Some x, Some y) \<Rightarrow> Inr (if x < y then b else a)
      | _ \<Rightarrow> Inl TypeError)"

text \<open>A loop whose body may raise: the first error ends it.\<close>

fun fold_err :: "('a \<Rightarrow> 's \<Rightarrow> 'e + 's) \<Rightarrow> 'a list \<Rightarrow> 's \<Rightarrow> 'e + 's" where
  "fold_err f [] s = Inr s"
| "fold_err f (x # xs) s = (case f x s of Inl e \<Rightarrow> Inl e | Inr s' \<Rightarrow> fold_err f xs s')"

section \<open>Merge resolvers\<close>

text \<open>
  Both merge functions start alike, on the key \<^verbatim>\<open>'sources'\<close> in
  \<^verbatim>\<open>merge_plan_data\<close> and \<^verbatim>\<open>'oslo_sources'\<close> in \<^verbatim>\<open>merge_oslo_data\<close>:
  \<^verbatim>\<open>
  merged = existing.copy()
  if KEY not in merged:
      merged[KEY] = [existing.get('source', 'unknown')]
  if new.get('source') not in merged[KEY]:
      merged[KEY].append(new.get('source', 'unknown'))
  \<close>
  \<^verbatim>\<open>append\<close> exists on lists only.
\<close>

definition add_source :: "string \<Rightarrow> pydict \<Rightarrow> pydict \<Rightarrow> py_error + pydict" where
  "add_source skey existing new =
     (let merged = (if has_key existing skey then existing
                    else dict_set existing skey
                           (PList [dict_get existing ''source'' (PStr ''unknown'')]));
          srcs = dict_get merged skey PNone
      in case py_in (dict_get new ''source'' PNone) srcs of
           Inl e \<Rightarrow> Inl e
         | Inr True \<Rightarrow> Inr merged
         | Inr False \<Rightarrow>
             (case srcs of
                PList l \<Rightarrow>
                  Inr (dict_set merged skey
                         (PList (l @ [dict_get new ''source'' (PStr ''unknown'')])))
              | _ \<Rightarrow> Inl AttributeError))"

text \<open>The body of the loop \<^verbatim>\<open>for key, value in new.items()\<close> of
  \<^verbatim>\<open>merge_plan_data\<close>.\<close>

definition merge_plan_field :: "string \<times> pyval \<Rightarrow> pydict \<Rightarrow> pydict" where
  "merge_plan_field kv merged =
     (case kv of (key, value) \<Rightarrow>
        if key \<noteq> ''source'' \<and> truthy value
           \<and> (\<not> has_key merged key \<or> \<not> truthy (dict_get merged key PNone))
        then dict_set merged key value else merged)"

text \<open>\<^verbatim>\<open>IntegratedPlanningSystem.merge_plan_data\<close>.\<close>

definition merge_plan_data :: "pydict \<Rightarrow> pydict \<Rightarrow> py_error + pydict" where
  "merge_plan_data existing new =
     (case add_source ''sources'' existing new of
        Inl e \<Rightarrow> Inl e
      | Inr merged \<Rightarrow> Inr (fold merge_plan_field new merged))"

definition oslo_fields :: "string list" where
  "oslo_fields = [''oslo_areas'', ''oslo_terms'', ''oslo_relevance_score'']"

text \<open>The body of the loop \<^verbatim>\<open>for field in oslo_fields\<close> of \<^verbatim>\<open>merge_oslo_data\<close>.\<close>

definition merge_oslo_field :: "pydict \<Rightarrow> string \<Rightarrow> pydict \<Rightarrow> py_error + pydict" where
  "merge_oslo_field new field merged =
     (if has_key new field \<and> truthy (dict_get new field PNone)
      then if \<not> has_key merged field
           then Inr (dict_set merged field (dict_get new field PNone))
           else (case dict_get merged field PNone of
                   PList l \<Rightarrow>
                     (case py_iter (dict_get new field PNone) of
                        Inl e \<Rightarrow> Inl e
                      | Inr ys \<Rightarrow> Inr (dict_set merged field (PList (l @ ys))))
                 | PInt i \<Rightarrow>
                     (case py_max (PInt i) (dict_get new field PNone) of
                        Inl e \<Rightarrow> Inl e
                      | Inr m \<Rightarrow> Inr (dict_set merged field m))
                 | PBool b \<Rightarrow>
                     (case py_max (PBool b) (dict_get new field PNone) of
                        Inl e \<Rightarrow> Inl e
                      | Inr m \<Rightarrow> Inr (dict_set merged field m))
                 | _ \<Rightarrow> Inr merged)
      else Inr merged)"

text \<open>\<^verbatim>\<open>OsloPlanningSystem.merge_oslo_data\<close>, on values: the result as a record.
  What the call does to the list objects the two records share is the subject of the
  store model further down.\<close>

definition merge_oslo_data :: "pydict \<Rightarrow> pydict \<Rightarrow> py_error + pydict" where
  "merge_oslo_data existing new =
     (case add_source ''oslo_sources'' existing new of
        Inl e \<Rightarrow> Inl e
      | Inr merged \<Rightarrow> fold_err (merge_oslo_field new) oslo_fields merged)"

section \<open>The aggregation passes\<close>

text \<open>The dictionary \<^verbatim>\<open>unified_plans\<close> (\<^verbatim>\<open>oslo_unified\<close>) maps a key to a record, in
  the order in which the keys were first stored.  One round of the loop
  \<^verbatim>\<open>
  for item in all_data:
      key = generate_key(item)
      if key in unified:
          unified[key] = merge(unified[key], item)
      else:
          unified[key] = item
  \<close>
  with the key generator and the merge function of either system.\<close>

definition unify_step ::
  "(pydict \<Rightarrow> py_error + string) \<Rightarrow> (pydict \<Rightarrow> pydict \<Rightarrow> py_error + pydict) \<Rightarrow>
   pydict \<Rightarrow> (string \<times> pydict) list \<Rightarrow> py_error + (string \<times> pydict) list" where
  "unify_step gen_key merge item unified =
     (case gen_key item of
        Inl e \<Rightarrow> Inl e
      | Inr key \<Rightarrow>
          (case map_of unified key of
             Some existing \<Rightarrow>
               (case merge existing item of
                  Inl e \<Rightarrow> Inl e
                | Inr merged \<Rightarrow> Inr (dict_set unified key merged))
           | None \<Rightarrow> Inr (dict_set unified key item)))"

subsection \<open>Oslo\<close>

text \<open>The three batches of \<^verbatim>\<open>self.oslo_data\<close> that the pass reads.\<close>

record oslo_data =
  origo_datasets :: "pydict list"
  reguleringsplaner :: "pydict list"
  pdf_documents :: "pydict list"

record oslo_coverage =
  covered_oslo_areas :: nat
  total_oslo_areas :: nat
  coverage_percentage :: rat
  missing_areas :: "string list"

record oslo_source_summary =
  n_origo_datasets :: nat
  n_geonorge_oslo :: nat
  n_oslo_pdfs :: nat
  total_oslo_sources :: nat

record oslo_result =
  oslo_unified_data :: "pydict list"
  total_oslo_items :: nat
  source_breakdown :: oslo_source_summary
  oslo_coverage :: oslo_coverage

text \<open>\<^verbatim>\<open>covered_areas.update(xs)\<close> on a Python set, kept as a list without repetitions:
  each element is added unless an equal one is there already.  A list or a dictionary
  cannot be an element of a set.\<close>

fun set_add :: "pyval \<Rightarrow> pyval list \<Rightarrow> py_error + pyval list" where
  "set_add (PList xs) acc = Inl TypeError"
| "set_add (PDict d) acc = Inl TypeError"
| "set_add x acc = Inr (if list_ex (py_eq x) acc then acc else acc @ [x])"

definition set_update :: "pyval \<Rightarrow> pyval list \<Rightarrow> py_error + pyval list" where
  "set_update v acc =
     (case py_iter v of Inl e \<Rightarrow> Inl e | Inr xs \<Rightarrow> fold_err set_add xs acc)"

text \<open>The loop of \<^verbatim>\<open>assess_oslo_coverage\<close> that collects the covered areas.\<close>

definition cover_item :: "pydict \<Rightarrow> pyval list \<Rightarrow> py_error + pyval list" where
  "cover_item item covered =
     (if has_key item ''oslo_areas''
      then set_update (dict_get item ''oslo_areas'' PNone) covered
      else Inr covered)"

text \<open>\<^verbatim>\<open>OsloPlanningSystem.assess_oslo_coverage\<close>.  The percentage is the float
  \<^verbatim>\<open>(len(covered_areas) / 16) * 100\<close>; a count divided by sixteen and multiplied by a
  hundred is exact in binary floating point, so the rational number is the value.\<close>

definition assess_oslo_coverage :: "(string \<times> pydict) list \<Rightarrow> py_error + oslo_coverage" where
  "assess_oslo_coverage unified_data =
     (case fold_err cover_item (map snd unified_data) [] of
        Inl e \<Rightarrow> Inl e
      | Inr covered_areas \<Rightarrow>
          Inr \<lparr> covered_oslo_areas = length covered_areas,
                total_oslo_areas = length oslo_keywords_omrader,
                coverage_percentage =
                  (of_nat (length covered_areas) / of_nat (length oslo_keywords_omrader)) * 100,
                missing_areas =
                  filter (\<lambda>area. \<not> list_ex (py_eq (PStr area)) covered_areas)
                    oslo_keywords_omrader \<rparr>)"

text \<open>\<^verbatim>\<open>OsloPlanningSystem.get_oslo_source_summary\<close>.\<close>

definition get_oslo_source_summary :: "oslo_data \<Rightarrow> oslo_source_summary" where
  "get_oslo_source_summary od =
     \<lparr> n_origo_datasets = length (origo_datasets od),
       n_geonorge_oslo = length (reguleringsplaner od),
       n_oslo_pdfs = length (pdf_documents od),
       total_oslo_sources =
         length (origo_datasets od) + length (reguleringsplaner od) + length (pdf_documents od) \<rparr>"

text \<open>The loop of \<^verbatim>\<open>cross_reference_oslo_data\<close> over all items.\<close>

definition oslo_unify :: "builtins \<Rightarrow> pydict list \<Rightarrow> py_error + (string \<times> pydict) list" where
  "oslo_unify bi items = fold_err (unify_step (generate_oslo_key bi) merge_oslo_data) items []"

text \<open>\<^verbatim>\<open>OsloPlanningSystem.cross_reference_oslo_data\<close>.\<close>

definition cross_reference_oslo_data :: "builtins \<Rightarrow> oslo_data \<Rightarrow> py_error + oslo_result" where
  "cross_reference_oslo_data bi od =
     (let all_oslo_data = origo_datasets od @ reguleringsplaner od @ pdf_documents od
      in case oslo_unify bi all_oslo_data of
           Inl e \<Rightarrow> Inl e
         | Inr oslo_unified \<Rightarrow>
             (case assess_oslo_coverage oslo_unified of
                Inl e \<Rightarrow> Inl e
              | Inr cov \<Rightarrow>
                  Inr \<lparr> oslo_unified_data = map snd oslo_unified,
                        total_oslo_items = length oslo_unified,
                        source_breakdown = get_oslo_source_summary od,
                        oslo_coverage = cov \<rparr>))"

subsection \<open>The area classifier\<close>

text \<open>The other two keyword lists of \<^verbatim>\<open>self.oslo_keywords\<close> (0xE5 is a with ring).\<close>

definition oslo_keywords_oslo_spesifikk :: "string list" where
  "oslo_keywords_oslo_spesifikk =
     [''oslo kommune'', ''oslo s'', ''bj'' @ [CHR 0xF8] @ ''rvika'', ''barcode'',
      ''tjuvholmen'', ''aker brygge'', ''vulkan'', ''gr'' @ [CHR 0xF8] @ ''nland'',
      ''t'' @ [CHR 0xF8] @ ''yen'', ''kampen'', ''v'' @ [CHR 0xE5] @ ''lerenga'',
      ''majorstuen'']"

definition oslo_keywords_planterminologi :: "string list" where
  "oslo_keywords_planterminologi =
     [''oslo_kommuneplan'', ''oslo_regulering'', ''pbe_oslo'', ''plan_og_bygningsetaten'',
      ''oslo_planstrategi'']"

text \<open>\<^verbatim>\<open>OsloPlanningSystem.extract_oslo_plan_type\<close>.\<close>

definition extract_oslo_plan_type :: "string \<Rightarrow> pyval" where
  "extract_oslo_plan_type text =
     (if is_substr ''kommuneplan'' text then PStr ''kommuneplan''
      else if is_substr ''detaljregulering'' text then PStr ''detaljregulering''
      else if is_substr (''omr'' @ [CHR 0xE5] @ ''deregulering'') text
           then PStr (''omr'' @ [CHR 0xE5] @ ''deregulering'')
      else if is_substr ''reguleringsplan'' text then PStr ''reguleringsplan''
      else if list_ex (\<lambda>tema. is_substr tema text) [''temaplan'', ''klimaplan'', ''transportplan'']
           then PStr ''temaplan''
      else PNone)"

text \<open>\<^verbatim>\<open>OsloPlanningSystem.analyze_oslo_content\<close>.  The regular expression search
  \<^verbatim>\<open>extract_plan_id\<close> is a parameter; it runs only when something of Oslo was found.\<close>

definition analyze_oslo_content :: "(string \<Rightarrow> pyval) \<Rightarrow> string \<Rightarrow> pydict" where
  "analyze_oslo_content extract_plan_id text =
     (let text_lower = py_lower text;
          found_areas = filter (\<lambda>area. is_substr area text_lower) oslo_keywords_omrader;
          found_oslo_terms =
            filter (\<lambda>term. is_substr term text_lower) oslo_keywords_oslo_spesifikk
            @ filter (\<lambda>term. is_substr term text_lower) oslo_keywords_planterminologi;
          oslo_mentions =
            2 * int (length found_areas)
            + int (length (filter (\<lambda>term. is_substr term text_lower) oslo_keywords_oslo_spesifikk))
            + 3 * int (length (filter (\<lambda>term. is_substr term text_lower)
                                 oslo_keywords_planterminologi));
          plan_id = (if oslo_mentions > 0 then extract_plan_id text else PNone)
      in [(''oslo_relevance_score'', PInt oslo_mentions),
          (''oslo_areas'', PList (map PStr found_areas)),
          (''oslo_terms'', PList (map PStr found_oslo_terms)),
          (''oslo_mentions'', PInt oslo_mentions),
          (''plan_id'', plan_id),
          (''plan_type'', extract_oslo_plan_type text_lower)])"

subsection \<open>All municipalities\<close>

text \<open>The two lists of \<^verbatim>\<open>self.integrated_data\<close> that the pass reads.\<close>

record integrated_data =
  regulatory_plans :: "pydict list"
  pdf_analyses :: "pydict list"

record sources_summary =
  n_geonorge :: nat
  n_oslo_origo :: nat
  n_pdf_analyses :: nat

record integrated_result =
  unified_plans :: "pydict list"
  cross_references :: nat
  sources_summary :: sources_summary

text \<open>The test of \<^verbatim>\<open>find_matching_plans\<close> for one plan.  \<^verbatim>\<open>and\<close> and \<^verbatim>\<open>or\<close>
  evaluate their right side only when the left side does not decide.\<close>

definition plan_matches :: "pydict \<Rightarrow> pydict \<Rightarrow> py_error + bool" where
  "plan_matches pdf_analysis plan =
     (case lower_of (dict_get pdf_analysis ''municipality'' (PStr '''')) of
        Inl e \<Rightarrow> Inl e
      | Inr pdf_municipality \<Rightarrow>
     (case lower_of (dict_get plan ''municipality'' (PStr '''')) of
        Inl e \<Rightarrow> Inl e
      | Inr plan_municipality \<Rightarrow>
          let pdf_plan_id = dict_get pdf_analysis ''plan_id'' (PStr '''')
          in if (is_substr pdf_municipality plan_municipality
                 \<or> is_substr plan_municipality pdf_municipality) \<and> truthy pdf_plan_id
             then (case py_in pdf_plan_id (dict_get plan ''plan_id'' (PStr '''')) of
                     Inl e \<Rightarrow> Inl e
                   | Inr True \<Rightarrow> Inr True
                   | Inr False \<Rightarrow> py_in pdf_plan_id (dict_get plan ''title'' (PStr '''')))
             else Inr False))"

text \<open>\<^verbatim>\<open>IntegratedPlanningSystem.find_matching_plans\<close>.  The municipality of the
  analysis is lowercased before the loop, also when there is no plan.\<close>

fun matching_keys :: "pydict \<Rightarrow> (string \<times> pydict) list \<Rightarrow> py_error + string list" where
  "matching_keys pdf_analysis [] = Inr []"
| "matching_keys pdf_analysis ((plan_key, plan) # rest) =
     (case plan_matches pdf_analysis plan of
        Inl e \<Rightarrow> Inl e
      | Inr b \<Rightarrow>
          (case matching_keys pdf_analysis rest of
             Inl e \<Rightarrow> Inl e
           | Inr ks \<Rightarrow> Inr (if b then plan_key # ks else ks)))"

definition find_matching_plans ::
  "pydict \<Rightarrow> (string \<times> pydict) list \<Rightarrow> py_error + string list" where
  "find_matching_plans pdf_analysis unified =
     (case lower_of (dict_get pdf_analysis ''municipality'' (PStr '''')) of
        Inl e \<Rightarrow> Inl e
      | Inr pdf_municipality \<Rightarrow> matching_keys pdf_analysis unified)"

text \<open>The second loop of \<^verbatim>\<open>cross_reference_data\<close>: every matching plan gets the
  analysis under \<^verbatim>\<open>'pdf_analysis'\<close>.\<close>

definition attach_pdf ::
  "pydict \<Rightarrow> (string \<times> pydict) list \<Rightarrow> py_error + (string \<times> pydict) list" where
  "attach_pdf pdf_analysis unified =
     (case find_matching_plans pdf_analysis unified of
        Inl e \<Rightarrow> Inl e
      | Inr potential_matches \<Rightarrow>
          Inr (fold (\<lambda>match_key u.
                       case map_of u match_key of
                         Some plan \<Rightarrow>
                           dict_set u match_key (dict_set plan ''pdf_analysis'' (PDict pdf_analysis))
                       | None \<Rightarrow> u)
                 potential_matches unified))"

text \<open>\<^verbatim>\<open>IntegratedPlanningSystem.get_sources_summary\<close>.\<close>

definition get_sources_summary :: "integrated_data \<Rightarrow> sources_summary" where
  "get_sources_summary d =
     \<lparr> n_geonorge =
         length (filter (\<lambda>p. py_eq (dict_get p ''source'' PNone) (PStr ''geonorge''))
                   (regulatory_plans d)),
       n_oslo_origo =
         length (filter (\<lambda>p. py_eq (dict_get p ''source'' PNone) (PStr ''oslo_origo''))
                   (regulatory_plans d)),
       n_pdf_analyses = length (pdf_analyses d) \<rparr>"

text \<open>The first loop of \<^verbatim>\<open>cross_reference_data\<close>.\<close>

definition plan_unify :: "pydict list \<Rightarrow> py_error + (string \<times> pydict) list" where
  "plan_unify plans = fold_err (unify_step generate_plan_key merge_plan_data) plans []"

text \<open>\<^verbatim>\<open>IntegratedPlanningSystem.cross_reference_data\<close>.\<close>

definition cross_reference_data :: "integrated_data \<Rightarrow> py_error + integrated_result" where
  "cross_reference_data d =
     (case plan_unify (regulatory_plans d) of
        Inl e \<Rightarrow> Inl e
      | Inr unified \<Rightarrow>
          (case fold_err attach_pdf (pdf_analyses d) unified of
             Inl e \<Rightarrow> Inl e
           | Inr unified' \<Rightarrow>
               Inr \<lparr> unified_plans = map snd unified',
                     cross_references =
                       length (filter (\<lambda>p. has_key p ''pdf_analysis'') (map snd unified')),
                     sources_summary = get_sources_summary d \<rparr>))"

section \<open>The Oslo merge on list objects\<close>

text \<open>
  \<^verbatim>\<open>existing.copy()\<close> is a shallow copy: the new dictionary holds the same list objects
  as \<^verbatim>\<open>existing\<close>, and \<^verbatim>\<open>append\<close> and \<^verbatim>\<open>extend\<close> change a list object where it is.
  To follow that, a field holds either an immutable value or the address of a list
  object, and a store gives the elements of each list object.  Only the lists that are
  values of fields are objects; what is inside a list or a nested dictionary is a value.
\<close>

type_synonym addr = nat

datatype field_val =
    FNone
  | FBool bool
  | FInt int
  | FStr string
  | FDict pydict
  | FListRef addr

type_synonym hrecord = "(string \<times> field_val) list"

text \<open>\<open>fresh\<close> is the first address not in use.\<close>

record store =
  objs :: "addr \<Rightarrow> pyval list"
  fresh :: addr

text \<open>The value a field has in a store.\<close>

fun read_val :: "store \<Rightarrow> field_val \<Rightarrow> pyval" where
  "read_val st FNone = PNone"
| "read_val st (FBool b) = PBool b"
| "read_val st (FInt i) = PInt i"
| "read_val st (FStr s) = PStr s"
| "read_val st (FDict d) = PDict d"
| "read_val st (FListRef a) = PList (objs st a)"

definition read_record :: "store \<Rightarrow> hrecord \<Rightarrow> pydict" where
  "read_record st r = map (\<lambda>(k, fv). (k, read_val st fv)) r"

definition field_get :: "hrecord \<Rightarrow> string \<Rightarrow> field_val \<Rightarrow> field_val" where
  "field_get d k dflt = (case map_of d k of None \<Rightarrow> dflt | Some v \<Rightarrow> v)"

text \<open>\<^verbatim>\<open>xs.extend(ys)\<close> and \<^verbatim>\<open>xs.append(y)\<close> on the list object at an address.\<close>

definition extend_obj :: "addr \<Rightarrow> pyval list \<Rightarrow> store \<Rightarrow> store" where
  "extend_obj a ys st = st\<lparr>objs := (objs st)(a := objs st a @ ys)\<rparr>"

text \<open>A list display \<^verbatim>\<open>[x]\<close> makes a new list object.\<close>

definition new_list :: "pyval list \<Rightarrow> store \<Rightarrow> addr \<times> store" where
  "new_list xs st = (fresh st, st\<lparr>objs := (objs st)(fresh st := xs), fresh := Suc (fresh st)\<rparr>)"

text \<open>The first statements of \<^verbatim>\<open>merge_oslo_data\<close>, up to the loop.\<close>

definition add_source_st ::
  "string \<Rightarrow> store \<Rightarrow> hrecord \<Rightarrow> hrecord \<Rightarrow> py_error + store \<times> hrecord" where
  "add_source_st skey st existing new =
     (let (st1, merged) =
            (if has_key existing skey then (st, existing)
             else (case new_list [read_val st (field_get existing ''source'' (FStr ''unknown''))] st of
                     (a, st') \<Rightarrow> (st', dict_set existing skey (FListRef a))));
          srcs = field_get merged skey FNone
      in case py_in (read_val st1 (field_get new ''source'' FNone)) (read_val st1 srcs) of
           Inl e \<Rightarrow> Inl e
         | Inr True \<Rightarrow> Inr (st1, merged)
         | Inr False \<Rightarrow>
             (case srcs of
                FListRef a \<Rightarrow>
                  Inr (extend_obj a [read_val st1 (field_get new ''source'' (FStr ''unknown''))] st1,
                       merged)
              | _ \<Rightarrow> Inl AttributeError))"

text \<open>\<^verbatim>\<open>max(a, b)\<close> gives back one of its two arguments.\<close>

definition max_field :: "store \<Rightarrow> field_val \<Rightarrow> field_val \<Rightarrow> py_error + field_val" where
  "max_field st a b =
     (case (num_of (read_val st a), num_of (read_val st b)) of
        (Some x, Some y) \<Rightarrow> Inr (if x < y then b else a)
      | _ \<Rightarrow> Inl TypeError)"

text \<open>The body of the loop \<^verbatim>\<open>for field in oslo_fields\<close>.  \<^verbatim>\<open>merged[field] = new[field]\<close>
  stores the object of \<^verbatim>\<open>new\<close> itself; \<^verbatim>\<open>merged[field].extend(new[field])\<close> reads the
  elements of \<^verbatim>\<open>new[field]\<close> and then changes the object \<^verbatim>\<open>merged[field]\<close>, which is
  the one \<^verbatim>\<open>existing\<close> holds.\<close>

definition merge_oslo_field_st ::
  "hrecord \<Rightarrow> string \<Rightarrow> store \<times> hrecord \<Rightarrow> py_error + store \<times> hrecord" where
  "merge_oslo_field_st new field sm =
     (case sm of (st, merged) \<Rightarrow>
        if has_key new field \<and> truthy (read_val st (field_get new field FNone))
        then if \<not> has_key merged field
             then Inr (st, dict_set merged field (field_get new field FNone))
             else (case field_get merged field FNone of
                     FListRef a \<Rightarrow>
                       (case py_iter (read_val st (field_get new field FNone)) of
                          Inl e \<Rightarrow> Inl e
                        | Inr ys \<Rightarrow> Inr (extend_obj a ys st, merged))
                   | FInt i \<Rightarrow>
                       (case max_field st (FInt i) (field_get new field FNone) of
                          Inl e \<Rightarrow> Inl e
                        | Inr m \<Rightarrow> Inr (st, dict_set merged field m))
                   | FBool b \<Rightarrow>
                       (case max_field st (FBool b) (field_get new field FNone) of
                          Inl e \<Rightarrow> Inl e
                        | Inr m \<Rightarrow> Inr (st, dict_set merged field m))
                   | _ \<Rightarrow> Inr (st, merged))
        else Inr (st, merged))"

text \<open>\<^verbatim>\<open>OsloPlanningSystem.merge_oslo_data\<close> with its effect on the store: the store
  after the call and the record returned.\<close>

definition merge_oslo_data_st ::
  "store \<Rightarrow> hrecord \<Rightarrow> hrecord \<Rightarrow> py_error + store \<times> hrecord" where
  "merge_oslo_data_st st existing new =
     (case add_source_st ''oslo_sources'' st existing new of
        Inl e \<Rightarrow> Inl e
      | Inr sm \<Rightarrow> fold_err (merge_oslo_field_st new) oslo_fields sm)"

section \<open>Notions used in the statements\<close>

text \<open>A field that is absent or holds a string, and the string it holds (or a default).\<close>

definition str_or_absent :: "pydict \<Rightarrow> string \<Rightarrow> bool" where
  "str_or_absent d k =
     (case map_of d k of None \<Rightarrow> True | Some (PStr s) \<Rightarrow> True | Some _ \<Rightarrow> False)"

definition str_field :: "pydict \<Rightarrow> string \<Rightarrow> string \<Rightarrow> string" where
  "str_field d k dflt = (case map_of d k of Some (PStr s) \<Rightarrow> s | _ \<Rightarrow> dflt)"

text \<open>A field that is absent or holds a list.\<close>

definition list_or_absent :: "pydict \<Rightarrow> string \<Rightarrow> bool" where
  "list_or_absent d k =
     (case map_of d k of None \<Rightarrow> True | Some (PList l) \<Rightarrow> True | Some _ \<Rightarrow> False)"

text \<open>A field that holds a value that is neither a list nor a number (\<^verbatim>\<open>bool\<close> is a
  subclass of \<^verbatim>\<open>int\<close>): a scalar attribute, as opposed to the list-valued attributes and
  the numeric scores.\<close>

definition scalar_field :: "pydict \<Rightarrow> string \<Rightarrow> bool" where
  "scalar_field d k =
     (case map_of d k of
        None \<Rightarrow> False
      | Some (PList l) \<Rightarrow> False
      | Some (PInt i) \<Rightarrow> False
      | Some (PBool b) \<Rightarrow> False
      | Some _ \<Rightarrow> True)"

text \<open>A field that is absent or holds an integer, and a record whose three Oslo fields
  have the types \<^verbatim>\<open>analyze_oslo_content\<close> gives them: two lists and an integer.\<close>

definition int_or_absent :: "pydict \<Rightarrow> string \<Rightarrow> bool" where
  "int_or_absent d k =
     (case map_of d k of None \<Rightarrow> True | Some (PInt i) \<Rightarrow> True | Some _ \<Rightarrow> False)"

definition oslo_typed :: "pydict \<Rightarrow> bool" where
  "oslo_typed r =
     (list_or_absent r ''oslo_areas'' \<and> list_or_absent r ''oslo_terms''
      \<and> int_or_absent r ''oslo_relevance_score'')"

text \<open>The source tags of a record: its list of sources once it has been merged, its own
  \<^verbatim>\<open>'source'\<close> before (\<^verbatim>\<open>'unknown'\<close> when it has none).\<close>

definition source_tags :: "string \<Rightarrow> pydict \<Rightarrow> pyval list" where
  "source_tags skey r =
     (case map_of r skey of
        Some (PList l) \<Rightarrow> l
      | _ \<Rightarrow> [dict_get r ''source'' (PStr ''unknown'')])"

text \<open>Records used as examples: the sample plan of \<^verbatim>\<open>search_oslo_origo_plans\<close> (with
  an ASCII title) and the first record of the specification's example scenario.\<close>

definition plan_bjorvika :: pydict where
  "plan_bjorvika =
     [(''source'', PStr ''oslo_origo''), (''plan_id'', PStr ''oslo-sample-001''),
      (''title'', PStr ''Reguleringsplan for Bjorvika''), (''municipality'', PStr ''Oslo'')]"

definition plan_frogner :: pydict where
  "plan_frogner =
     [(''source'', PStr ''geonorge''), (''title'', PStr ''Reguleringsplan Frogner Park''),
      (''municipality'', PStr ''Oslo'')]"

text \<open>A stand-in for the two built-ins, for running the model on examples.\<close>

definition bi7 :: builtins where
  "bi7 = \<lparr>py_hash = (\<lambda>s. 7), py_repr = (\<lambda>v. ''{}'')\<rparr>"

text \<open>Two plans with the same key for \<^verbatim>\<open>merge_plan_data\<close>, and two Oslo records with
  the same identifier for \<^verbatim>\<open>merge_oslo_data\<close>.\<close>

definition plan_a :: pydict where
  "plan_a =
     [(''source'', PStr ''geonorge''), (''title'', PStr ''Plan A''),
      (''keywords'', PList [PStr ''a'']), (''description'', PStr '''')]"

definition plan_b :: pydict where
  "plan_b =
     [(''source'', PStr ''oslo_origo''), (''title'', PStr ''PLAN A''),
      (''keywords'', PList [PStr ''b'']), (''description'', PStr ''text''),
      (''status'', PStr ''vedtatt'')]"

definition oslo_a :: pydict where
  "oslo_a =
     [(''source'', PStr ''oslo_pdf''), (''plan_id'', PStr ''P1''),
      (''oslo_areas'', PList [PStr ''frogner'']), (''oslo_relevance_score'', PInt 3)]"

definition oslo_b :: pydict where
  "oslo_b =
     [(''source'', PStr ''geonorge_oslo''), (''plan_id'', PStr ''P1''), (''title'', PStr ''T''),
      (''oslo_areas'', PList [PStr ''sagene'']), (''oslo_relevance_score'', PInt 5),
      (''oslo_terms'', PList [PStr ''vulkan''])]"

text \<open>The values an area list may hold: the configured area names.  A record is in
  order when its \<^verbatim>\<open>oslo_areas\<close>, if it has the field, is a list of such values; a set of
  covered areas is in order when it holds such values, each once.\<close>

definition area_values :: "pyval set" where
  "area_values = PStr ` set oslo_keywords_omrader"

definition areas_ok :: "pydict \<Rightarrow> bool" where
  "areas_ok item =
     (case map_of item ''oslo_areas'' of
        None \<Rightarrow> True
      | Some (PList xs) \<Rightarrow> set xs \<subseteq> area_values
      | Some _ \<Rightarrow> False)"

definition covered_ok :: "pyval list \<Rightarrow> bool" where
  "covered_ok acc = (distinct acc \<and> set acc \<subseteq> area_values)"

text \<open>The batches of an Oslo run with the two example records.\<close>

definition oslo_run :: oslo_data where
  "oslo_run = \<lparr>origo_datasets = [], reguleringsplaner = [oslo_b], pdf_documents = [oslo_a]\<rparr>"

text \<open>The values of \<^verbatim>\<open>hash\<close> on three lowercased titles in two runs of
  CPython 3.11 (64 bit, SipHash-1-3), one started with \<^verbatim>\<open>PYTHONHASHSEED=1\<close> and one
  with \<^verbatim>\<open>PYTHONHASHSEED=1795\<close>.  On other strings the two functions are 0; the
  examples hash nothing else.\<close>

definition hash_seed_1 :: "string \<Rightarrow> int" where
  "hash_seed_1 s =
     (if s = ''frogner nord'' then 4666164796165335992
      else if s = ''frogner syd'' then 1341732453072792320
      else if s = ''reguleringsplan frogner park'' then - 7592969028019060304
      else 0)"

definition hash_seed_1795 :: "string \<Rightarrow> int" where
  "hash_seed_1795 s =
     (if s = ''frogner nord'' then - 2035650315614902997
      else if s = ''frogner syd'' then - 8395506133961613997
      else if s = ''reguleringsplan frogner park'' then 2383635496059031755
      else 0)"

text \<open>Two records without identifier whose titles name the same area.\<close>

definition frogner_nord :: pydict where
  "frogner_nord = [(''source'', PStr ''oslo_origo''), (''title'', PStr ''Frogner nord'')]"

definition frogner_syd :: pydict where
  "frogner_syd = [(''source'', PStr ''geonorge_oslo''), (''title'', PStr ''Frogner syd'')]"

definition frogner_run :: oslo_data where
  "frogner_run =
     \<lparr>origo_datasets = [frogner_nord], reguleringsplaner = [frogner_syd], pdf_documents = []\<rparr>"

text \<open>Notions for the store: a store that has only grown (no address in use was freed or
  overwritten, and every list object in use has its old elements first); a field value
  whose list object, if it is one, is in use; a list object that no field of a record
  other than \<open>f\<close> holds.\<close>

definition store_extends :: "store \<Rightarrow> store \<Rightarrow> bool" where
  "store_extends st st' =
     (fresh st \<le> fresh st' \<and> (\<forall>b. b < fresh st \<longrightarrow> prefix (objs st b) (objs st' b)))"

definition allocated :: "store \<Rightarrow> field_val \<Rightarrow> bool" where
  "allocated st fv = (case fv of FListRef b \<Rightarrow> b < fresh st | _ \<Rightarrow> True)"

definition held_only_by :: "hrecord \<Rightarrow> string \<Rightarrow> field_val \<Rightarrow> bool" where
  "held_only_by r f fv =
     (case fv of
        FListRef b \<Rightarrow> (\<forall>g. map_of r g = Some (FListRef b) \<longrightarrow> g = f)
      | _ \<Rightarrow> True)"

text \<open>The two example Oslo records with their area lists as list objects at the
  addresses 0 and 1.\<close>

definition st_ex :: store where
  "st_ex = \<lparr>objs = (\<lambda>a. [])(0 := [PStr ''frogner''], 1 := [PStr ''sagene'']), fresh = 2\<rparr>"

definition hrec_a :: hrecord where
  "hrec_a =
     [(''source'', FStr ''oslo_pdf''), (''plan_id'', FStr ''P1''),
      (''oslo_areas'', FListRef 0), (''oslo_relevance_score'', FInt 3)]"

definition hrec_b :: hrecord where
  "hrec_b =
     [(''source'', FStr ''geonorge_oslo''), (''plan_id'', FStr ''P1''), (''title'', FStr ''T''),
      (''oslo_areas'', FListRef 1), (''oslo_relevance_score'', FInt 5)]"

section \<open>Dictionaries and strings: auxiliary facts\<close>

lemma lower_of_dict_get:
  "str_or_absent d k \<Longrightarrow> lower_of (dict_get d k (PStr dflt)) = Inr (py_lower (str_field d k dflt))"
  by (auto simp: str_or_absent_def str_field_def dict_get_def split: option.splits pyval.splits)

lemma join_Cons_Nil_iff: "sep \<noteq> [] \<Longrightarrow> join sep (x # xs) = [] \<longleftrightarrow> x = [] \<and> xs = [] "
  by (cases xs) auto

lemma str_of_nat_nonempty: "str_of_nat n \<noteq> []"
  by (subst str_of_nat.simps) simp

lemma first_area_in_Nil: "first_area_in [] = None"
  by (simp add: first_area_in_def oslo_keywords_omrader_def)

lemma map_of_dict_set: "map_of (dict_set d k v) k' = (if k' = k then Some v else map_of d k')"
  by (induction d) auto

lemma map_fst_dict_set:
  "map fst (dict_set d k v) = (if k \<in> fst ` set d then map fst d else map fst d @ [k])"
  by (induction d) (auto simp: rev_image_eqI)

lemma dict_set_keys_distinct:
  "distinct (map fst d) \<Longrightarrow> distinct (map fst (dict_set d k v))"
  by (simp add: map_fst_dict_set)

lemma py_eq_PStr_left: "py_eq (PStr s) v \<longleftrightarrow> v = PStr s"
  by (cases v) auto

lemma list_ex_py_eq_PStr: "list_ex (py_eq (PStr s)) l \<longleftrightarrow> PStr s \<in> set l"
  by (auto simp: list_ex_iff py_eq_PStr_left)

section \<open>The merge resolvers: auxiliary facts\<close>

lemma add_source_other:
  "add_source skey existing new = Inr m \<Longrightarrow> k \<noteq> skey \<Longrightarrow> map_of m k = map_of existing k"
  by (auto simp: add_source_def Let_def map_of_dict_set
      split: sum.splits bool.splits pyval.splits if_splits)

lemma add_source_tags:
  assumes "add_source skey existing new = Inr m" and "list_or_absent existing skey"
    and "map_of new ''source'' = Some (PStr s)"
  shows "\<exists>l. map_of m skey = Some (PList l) \<and> l \<noteq> []
          \<and> set l = set (source_tags skey existing) \<union> {PStr s}"
  using assms
  by (auto simp: add_source_def Let_def map_of_dict_set has_key_def dict_get_def source_tags_def
      list_or_absent_def list_ex_py_eq_PStr py_eq_PStr_left
      split: sum.splits bool.splits pyval.splits if_splits option.splits)

lemma add_source_populated:
  assumes "add_source skey existing new = Inr m"
  shows "populated existing k \<Longrightarrow> populated m k"
    using assms
  apply (cases "k = skey")
   apply (auto simp: add_source_def Let_def map_of_dict_set has_key_def dict_get_def populated_def
      split: sum.splits bool.splits pyval.splits if_splits option.splits)
  done


lemma merge_plan_field_other:
  "k \<noteq> fst kv \<Longrightarrow> map_of (merge_plan_field kv m) k = map_of m k"
  by (cases kv) (auto simp: merge_plan_field_def map_of_dict_set)

lemma merge_plan_field_populated:
  "populated m k \<Longrightarrow> map_of (merge_plan_field kv m) k = map_of m k"
  by (cases kv)
    (auto simp: merge_plan_field_def map_of_dict_set populated_def has_key_def dict_get_def
      split: option.splits)

lemma fold_merge_plan_field_populated:
  "populated m k \<Longrightarrow> map_of (fold merge_plan_field new m) k = map_of m k"
proof (induction new arbitrary: m)
  case Nil
  then show ?case by simp
next
  case (Cons kv new)
  have "populated (merge_plan_field kv m) k"
    using Cons.prems by (simp add: populated_def merge_plan_field_populated)
  then show ?case
    using Cons.IH [of "merge_plan_field kv m"] Cons.prems
    by (simp add: merge_plan_field_populated)
qed

lemma fold_merge_plan_field_absent:
  "k \<notin> fst ` set new \<Longrightarrow> map_of (fold merge_plan_field new m) k = map_of m k"
  by (induction new arbitrary: m) (auto simp: merge_plan_field_other)

text \<open>What the loop does to a key that is not populated yet.\<close>

lemma fold_merge_plan_field_copy:
  assumes "distinct (map fst new)" and "\<not> populated m k"
  shows "map_of (fold merge_plan_field new m) k =
           (if k \<noteq> ''source'' \<and> populated new k then map_of new k else map_of m k)"
  using assms
proof (induction new arbitrary: m)
  case Nil
  then show ?case by (simp add: populated_def)
next
  case (Cons kv new)
  obtain key v where kv: "kv = (key, v)" by (cases kv)
  show ?case
  proof (cases "key = k")
    case True
    then have notin: "k \<notin> fst ` set new" using Cons.prems(1) kv by auto
    have 1: "map_of (fold merge_plan_field new (merge_plan_field kv m)) k
            = map_of (merge_plan_field kv m) k"
      by (rule fold_merge_plan_field_absent [OF notin])
    have 2: "map_of (merge_plan_field kv m) k =
               (if k \<noteq> ''source'' \<and> truthy v then Some v else map_of m k)"
      using True kv Cons.prems(2)
      by (auto simp: merge_plan_field_def map_of_dict_set populated_def has_key_def dict_get_def
          split: option.splits)
    show ?thesis
      using 1 2 True kv by (simp add: populated_def)
  next
    case False
    then have same: "map_of (merge_plan_field kv m) k = map_of m k"
      using kv by (simp add: merge_plan_field_other)
    then have np: "\<not> populated (merge_plan_field kv m) k"
      using Cons.prems(2) by (simp add: populated_def)
    from Cons.prems(1) have d: "distinct (map fst new)" by simp
    have "map_of (fold merge_plan_field new (merge_plan_field kv m)) k =
            (if k \<noteq> ''source'' \<and> populated new k then map_of new k else map_of m k)"
      using Cons.IH [OF d np] by (simp only: same)
    moreover have "populated (kv # new) k = populated new k" "map_of (kv # new) k = map_of new k"
      using False kv by (simp_all add: populated_def)
    ultimately show ?thesis by simp
  qed
qed


lemma merge_plan_data_fields:
  assumes "merge_plan_data existing new = Inr merged" and "distinct (map fst new)"
    and "k \<noteq> ''sources''"
  shows "map_of merged k =
           (if populated existing k then map_of existing k
            else if k \<noteq> ''source'' \<and> populated new k then map_of new k
            else map_of existing k)"
proof -
  from assms(1) obtain m0 where a: "add_source ''sources'' existing new = Inr m0"
    and m: "merged = fold merge_plan_field new m0"
    by (auto simp: merge_plan_data_def split: sum.splits)
  have same: "map_of m0 k = map_of existing k"
    using add_source_other [OF a assms(3)] .
  then have pop: "populated m0 k = populated existing k"
    by (simp add: populated_def)
  show ?thesis
  proof (cases "populated existing k")
    case True
    then show ?thesis
      using fold_merge_plan_field_populated [of m0 k new] pop same m by simp
  next
    case False
    then show ?thesis
      using fold_merge_plan_field_copy [OF assms(2), of m0 k] pop same m by auto
  qed
qed

lemma merge_plan_data_sources:
  assumes "merge_plan_data existing new = Inr merged" and "list_or_absent existing ''sources''"
    and "map_of new ''source'' = Some (PStr s)"
  shows "\<exists>l. map_of merged ''sources'' = Some (PList l)
          \<and> set l = set (source_tags ''sources'' existing) \<union> {PStr s}"
proof -
  from assms(1) obtain m0 where a: "add_source ''sources'' existing new = Inr m0"
    and m: "merged = fold merge_plan_field new m0"
    by (auto simp: merge_plan_data_def split: sum.splits)
  from add_source_tags [OF a assms(2,3)] obtain l where
    l: "map_of m0 ''sources'' = Some (PList l)" "l \<noteq> []"
      "set l = set (source_tags ''sources'' existing) \<union> {PStr s}"
    by blast
  then have "populated m0 ''sources''" by (simp add: populated_def)
  then have "map_of merged ''sources'' = map_of m0 ''sources''"
    unfolding m by (rule fold_merge_plan_field_populated)
  with l show ?thesis by simp
qed

lemma merge_plan_data_populated:
  assumes "merge_plan_data existing new = Inr merged" and "distinct (map fst new)"
    and "populated existing k \<or> (populated new k \<and> k \<noteq> ''source'')"
  shows "populated merged k"
proof -
  from assms(1) obtain m0 where a: "add_source ''sources'' existing new = Inr m0"
    and m: "merged = fold merge_plan_field new m0"
    by (auto simp: merge_plan_data_def split: sum.splits)
  show ?thesis
  proof (cases "populated m0 k")
    case True
    then have "map_of merged k = map_of m0 k"
      unfolding m by (rule fold_merge_plan_field_populated)
    with True show ?thesis by (simp add: populated_def)
  next
    case False
    with add_source_populated [OF a] have "\<not> populated existing k" by blast
    with assms(3) have n: "populated new k" "k \<noteq> ''source''" by simp_all
    have "map_of merged k = map_of new k"
      unfolding m using fold_merge_plan_field_copy [OF assms(2) False] n by simp
    with n show ?thesis by (simp add: populated_def)
  qed
qed

text \<open>When the sources field is a list or absent, the first statements raise nothing.\<close>

lemma add_source_returns:
  assumes "list_or_absent existing skey"
  shows "\<exists>m. add_source skey existing new = Inr m"
  using assms
  by (auto simp: add_source_def Let_def list_or_absent_def has_key_def dict_get_def
      map_of_dict_set split: option.splits pyval.splits bool.splits)

lemma merge_plan_data_returns:
  assumes "list_or_absent existing ''sources''"
  shows "\<exists>merged. merge_plan_data existing new = Inr merged"
  using add_source_returns [OF assms, of new] by (auto simp: merge_plan_data_def)

section \<open>The merge resolvers: auxiliary facts about the Oslo merge\<close>

lemma fold_err_Inr_induct:
  assumes "fold_err f xs s = Inr s'" and "P s"
    and "\<And>x s t. x \<in> set xs \<Longrightarrow> P s \<Longrightarrow> f x s = Inr t \<Longrightarrow> P t"
  shows "P s'"
  using assms
proof (induction xs arbitrary: s)
  case Nil
  then show ?case by simp
next
  case (Cons x xs)
  from Cons.prems(1) obtain t where t: "f x s = Inr t" "fold_err f xs t = Inr s'"
    by (auto split: sum.splits)
  have "P t" using Cons.prems(3) [of x s t] Cons.prems(2) t(1) by simp
  then show ?case
    by (rule Cons.IH [OF t(2)]) (use Cons.prems(3) in auto)
qed

lemma merge_oslo_field_other:
  "merge_oslo_field new f m = Inr m' \<Longrightarrow> k \<noteq> f \<Longrightarrow> map_of m' k = map_of m k"
  by (auto simp: merge_oslo_field_def map_of_dict_set split: if_splits pyval.splits sum.splits)

lemma fold_merge_oslo_field_other:
  assumes "fold_err (merge_oslo_field new) fs m = Inr m'" and "k \<notin> set fs"
  shows "map_of m' k = map_of m k"
proof (rule fold_err_Inr_induct [OF assms(1), where P = "\<lambda>x. map_of x k = map_of m k"])
  show "map_of m k = map_of m k" by simp
next
  fix x s t
  assume "x \<in> set fs" and s: "map_of s k = map_of m k"
    and t: "merge_oslo_field new x s = Inr t"
  with assms(2) have "k \<noteq> x" by auto
  from merge_oslo_field_other [OF t this] s show "map_of t k = map_of m k" by simp
qed

text \<open>The loop reaches each of its fields once, in a record that still has the value the
  field had when the loop began.\<close>

lemma fold_merge_oslo_field_at:
  assumes "fold_err (merge_oslo_field new) fs m = Inr m'" and "distinct fs" and "f \<in> set fs"
  shows "\<exists>m0 m1. map_of m0 f = map_of m f \<and> merge_oslo_field new f m0 = Inr m1
           \<and> map_of m' f = map_of m1 f"
  using assms
proof (induction fs arbitrary: m)
  case Nil
  then show ?case by simp
next
  case (Cons x fs)
  from Cons.prems(1) obtain t where t: "merge_oslo_field new x m = Inr t"
    "fold_err (merge_oslo_field new) fs t = Inr m'"
    by (auto split: sum.splits)
  show ?case
  proof (cases "x = f")
    case True
    then have "f \<notin> set fs" using Cons.prems(2) by simp
    then have "map_of m' f = map_of t f"
      using fold_merge_oslo_field_other [OF t(2)] by simp
    with t(1) True show ?thesis by blast
  next
    case False
    then have f: "f \<in> set fs" using Cons.prems(3) by simp
    from Cons.prems(2) have d: "distinct fs" by simp
    have same: "map_of t f = map_of m f"
      using merge_oslo_field_other [OF t(1)] False by simp
    from Cons.IH [OF t(2) d f] same show ?thesis by simp
  qed
qed

lemma merge_oslo_field_concat:
  assumes "merge_oslo_field new f m0 = Inr m1" and "map_of m0 f = Some (PList l)"
    and "map_of new f = Some (PList n)" and "n \<noteq> []"
  shows "map_of m1 f = Some (PList (l @ n))"
  using assms
  by (auto simp: merge_oslo_field_def map_of_dict_set has_key_def dict_get_def
      split: if_splits sum.splits)

lemma merge_oslo_field_max:
  assumes "merge_oslo_field new f m0 = Inr m1" and "map_of m0 f = Some (PInt a)"
    and "map_of new f = Some (PInt b)" and "b \<noteq> 0"
  shows "map_of m1 f = Some (PInt (max a b))"
  using assms
  by (auto simp: merge_oslo_field_def map_of_dict_set has_key_def dict_get_def py_max_def
      split: if_splits sum.splits)

lemma py_max_truthy: "py_max a b = Inr m \<Longrightarrow> truthy a \<Longrightarrow> truthy b \<Longrightarrow> truthy m"
  by (auto simp: py_max_def split: option.splits if_splits)

lemma merge_oslo_field_populated:
  assumes "merge_oslo_field new f m0 = Inr m1" and "populated m0 f"
  shows "populated m1 f"
  using assms
  by (auto simp: merge_oslo_field_def map_of_dict_set has_key_def dict_get_def populated_def
      split: if_splits sum.splits pyval.splits option.splits dest: py_max_truthy)

lemma merge_oslo_field_new:
  assumes "merge_oslo_field new f m0 = Inr m1" and "map_of m0 f = None" and "populated new f"
  shows "map_of m1 f = map_of new f"
  using assms
  by (auto simp: merge_oslo_field_def map_of_dict_set has_key_def dict_get_def populated_def
      split: if_splits sum.splits pyval.splits option.splits)

lemma merge_oslo_field_self:
  assumes "merge_oslo_field r f m0 = Inr m1" and "map_of m0 f = map_of r f"
  shows "map_of m1 f = (case map_of r f of Some (PList l) \<Rightarrow> Some (PList (l @ l)) | v \<Rightarrow> v)"
  using assms
  by (auto simp: merge_oslo_field_def map_of_dict_set has_key_def dict_get_def py_max_def
      split: if_splits sum.splits pyval.splits option.splits)

lemma oslo_fields_distinct: "distinct oslo_fields" "''oslo_sources'' \<notin> set oslo_fields"
  by (simp_all add: oslo_fields_def)

text \<open>The two stages of \<^verbatim>\<open>merge_oslo_data\<close>.\<close>

lemma merge_oslo_dataE:
  assumes "merge_oslo_data existing new = Inr merged"
  obtains m0 where "add_source ''oslo_sources'' existing new = Inr m0"
    and "fold_err (merge_oslo_field new) oslo_fields m0 = Inr merged"
  using assms by (auto simp: merge_oslo_data_def split: sum.splits)

lemma merge_oslo_data_other:
  assumes "merge_oslo_data existing new = Inr merged"
    and "k \<noteq> ''oslo_sources''" and "k \<notin> set oslo_fields"
  shows "map_of merged k = map_of existing k"
proof -
  from assms(1) obtain m0 where a: "add_source ''oslo_sources'' existing new = Inr m0"
    and f: "fold_err (merge_oslo_field new) oslo_fields m0 = Inr merged"
    by (rule merge_oslo_dataE)
  show ?thesis
    using fold_merge_oslo_field_other [OF f assms(3)] add_source_other [OF a assms(2)] by simp
qed

lemma merge_oslo_data_at:
  assumes "merge_oslo_data existing new = Inr merged" and "f \<in> set oslo_fields"
  shows "\<exists>m0 m1. map_of m0 f = map_of existing f \<and> merge_oslo_field new f m0 = Inr m1
           \<and> map_of merged f = map_of m1 f"
proof -
  from assms(1) obtain m0 where a: "add_source ''oslo_sources'' existing new = Inr m0"
    and fo: "fold_err (merge_oslo_field new) oslo_fields m0 = Inr merged"
    by (rule merge_oslo_dataE)
  have "f \<noteq> ''oslo_sources''" using assms(2) oslo_fields_distinct(2) by auto
  then have "map_of m0 f = map_of existing f" using add_source_other [OF a] by simp
  with fold_merge_oslo_field_at [OF fo oslo_fields_distinct(1) assms(2)] show ?thesis
    by auto
qed

lemma merge_oslo_data_sources:
  assumes "merge_oslo_data existing new = Inr merged" and "list_or_absent existing ''oslo_sources''"
    and "map_of new ''source'' = Some (PStr s)"
  shows "\<exists>l. map_of merged ''oslo_sources'' = Some (PList l)
          \<and> set l = set (source_tags ''oslo_sources'' existing) \<union> {PStr s}"
proof -
  from assms(1) obtain m0 where a: "add_source ''oslo_sources'' existing new = Inr m0"
    and fo: "fold_err (merge_oslo_field new) oslo_fields m0 = Inr merged"
    by (rule merge_oslo_dataE)
  have "map_of merged ''oslo_sources'' = map_of m0 ''oslo_sources''"
    using fold_merge_oslo_field_other [OF fo oslo_fields_distinct(2)] .
  with add_source_tags [OF a assms(2,3)] show ?thesis by auto
qed

lemma merge_oslo_data_populated:
  assumes "merge_oslo_data existing new = Inr merged" and "populated existing k"
  shows "populated merged k"
proof -
  from assms(1) obtain m0 where a: "add_source ''oslo_sources'' existing new = Inr m0"
    and fo: "fold_err (merge_oslo_field new) oslo_fields m0 = Inr merged"
    by (rule merge_oslo_dataE)
  have p0: "populated m0 k" using add_source_populated [OF a assms(2)] .
  show ?thesis
  proof (cases "k \<in> set oslo_fields")
    case True
    from fold_merge_oslo_field_at [OF fo oslo_fields_distinct(1) True]
    obtain mx m1 where x: "map_of mx k = map_of m0 k" "merge_oslo_field new k mx = Inr m1"
      "map_of merged k = map_of m1 k" by blast
    from x(1) p0 have "populated mx k" by (simp add: populated_def)
    from merge_oslo_field_populated [OF x(2) this] x(3) show ?thesis
      by (simp add: populated_def)
  next
    case False
    from fold_merge_oslo_field_other [OF fo False] p0 show ?thesis
      by (simp add: populated_def)
  qed
qed

text \<open>Scalar and absent fields in the Oslo merge, and the records on which it returns.\<close>

lemma merge_oslo_field_scalar:
  assumes "merge_oslo_field new f m = Inr m'" and "scalar_field m f"
  shows "map_of m' f = map_of m f"
  using assms
  by (auto simp: merge_oslo_field_def scalar_field_def has_key_def dict_get_def
      split: if_splits option.splits pyval.splits)

lemma merge_oslo_field_absent:
  assumes "merge_oslo_field new f m = Inr m'" and "map_of m f = None"
  shows "map_of m' f = (if populated new f then map_of new f else None)"
  using assms
  by (auto simp: merge_oslo_field_def has_key_def dict_get_def populated_def map_of_dict_set
      split: if_splits option.splits)

lemma merge_oslo_data_scalar:
  assumes "merge_oslo_data existing new = Inr merged" and "k \<noteq> ''oslo_sources''"
    and "k \<notin> set oslo_fields \<or> scalar_field existing k"
  shows "map_of merged k = map_of existing k"
proof (cases "k \<in> set oslo_fields")
  case False
  then show ?thesis by (rule merge_oslo_data_other [OF assms(1,2)])
next
  case True
  with assms(3) have s: "scalar_field existing k" by simp
  from merge_oslo_data_at [OF assms(1) True] obtain m0 m1 where
    x: "map_of m0 k = map_of existing k" "merge_oslo_field new k m0 = Inr m1"
      "map_of merged k = map_of m1 k"
    by blast
  from s x(1) have "scalar_field m0 k" by (simp add: scalar_field_def)
  from merge_oslo_field_scalar [OF x(2) this] x(1,3) show ?thesis by simp
qed

lemma merge_oslo_data_absent:
  assumes "merge_oslo_data existing new = Inr merged" and "k \<noteq> ''oslo_sources''"
    and "map_of existing k = None"
  shows "map_of merged k = (if k \<in> set oslo_fields \<and> populated new k then map_of new k else None)"
proof (cases "k \<in> set oslo_fields")
  case False
  with merge_oslo_data_other [OF assms(1,2) False] assms(3) show ?thesis by simp
next
  case True
  from merge_oslo_data_at [OF assms(1) True] obtain m0 m1 where
    x: "map_of m0 k = map_of existing k" "merge_oslo_field new k m0 = Inr m1"
      "map_of merged k = map_of m1 k"
    by blast
  from x(1) assms(3) have "map_of m0 k = None" by simp
  from merge_oslo_field_absent [OF x(2) this] x(3) True show ?thesis by simp
qed

lemma merge_oslo_field_list:
  assumes "list_or_absent m f" and "list_or_absent new f"
  shows "\<exists>m'. merge_oslo_field new f m = Inr m' \<and> list_or_absent m' f"
proof (cases "map_of new f")
  case None
  with assms(1) show ?thesis by (simp add: merge_oslo_field_def has_key_def)
next
  case (Some v)
  with assms(2) obtain n where n: "map_of new f = Some (PList n)"
    by (auto simp: list_or_absent_def split: pyval.splits)
  show ?thesis
  proof (cases "map_of m f")
    case None
    with n assms(1) show ?thesis
      by (simp add: merge_oslo_field_def has_key_def dict_get_def list_or_absent_def
          map_of_dict_set)
  next
    case (Some w)
    with assms(1) obtain l where l: "map_of m f = Some (PList l)"
      by (auto simp: list_or_absent_def split: pyval.splits)
    with n assms(1) show ?thesis
      by (simp add: merge_oslo_field_def has_key_def dict_get_def list_or_absent_def
          map_of_dict_set)
  qed
qed

lemma merge_oslo_field_int:
  assumes "int_or_absent m f" and "int_or_absent new f"
  shows "\<exists>m'. merge_oslo_field new f m = Inr m' \<and> int_or_absent m' f"
proof (cases "map_of new f")
  case None
  with assms(1) show ?thesis by (simp add: merge_oslo_field_def has_key_def)
next
  case (Some v)
  with assms(2) obtain j where n: "map_of new f = Some (PInt j)"
    by (auto simp: int_or_absent_def split: pyval.splits)
  show ?thesis
  proof (cases "map_of m f")
    case None
    with n assms(1) show ?thesis
      by (simp add: merge_oslo_field_def has_key_def dict_get_def int_or_absent_def
          map_of_dict_set)
  next
    case (Some w)
    with assms(1) obtain i where l: "map_of m f = Some (PInt i)"
      by (auto simp: int_or_absent_def split: pyval.splits)
    with n assms(1) show ?thesis
      by (simp add: merge_oslo_field_def has_key_def dict_get_def int_or_absent_def
          map_of_dict_set py_max_def)
  qed
qed

lemma merge_oslo_field_returns:
  assumes "oslo_typed m" and "oslo_typed new" and "f \<in> set oslo_fields"
  shows "\<exists>m'. merge_oslo_field new f m = Inr m' \<and> oslo_typed m'"
proof -
  from assms(3) consider "f = ''oslo_areas''" | "f = ''oslo_terms''"
    | "f = ''oslo_relevance_score''"
    by (auto simp: oslo_fields_def)
  then show ?thesis
  proof cases
    case 1
    from assms(1,2) have "list_or_absent m f" "list_or_absent new f"
      by (simp_all add: 1 oslo_typed_def)
    from merge_oslo_field_list [OF this] obtain m' where
      m': "merge_oslo_field new f m = Inr m'" "list_or_absent m' f" by blast
    have "map_of m' ''oslo_terms'' = map_of m ''oslo_terms''"
      "map_of m' ''oslo_relevance_score'' = map_of m ''oslo_relevance_score''"
      by (rule merge_oslo_field_other [OF m'(1)], simp add: 1)+
    with assms(1) m'(2) have "oslo_typed m'"
      by (simp add: oslo_typed_def 1 list_or_absent_def int_or_absent_def)
    with m'(1) show ?thesis by blast
  next
    case 2
    from assms(1,2) have "list_or_absent m f" "list_or_absent new f"
      by (simp_all add: 2 oslo_typed_def)
    from merge_oslo_field_list [OF this] obtain m' where
      m': "merge_oslo_field new f m = Inr m'" "list_or_absent m' f" by blast
    have "map_of m' ''oslo_areas'' = map_of m ''oslo_areas''"
      "map_of m' ''oslo_relevance_score'' = map_of m ''oslo_relevance_score''"
      by (rule merge_oslo_field_other [OF m'(1)], simp add: 2)+
    with assms(1) m'(2) have "oslo_typed m'"
      by (simp add: oslo_typed_def 2 list_or_absent_def int_or_absent_def)
    with m'(1) show ?thesis by blast
  next
    case 3
    from assms(1,2) have "int_or_absent m f" "int_or_absent new f"
      by (simp_all add: 3 oslo_typed_def)
    from merge_oslo_field_int [OF this] obtain m' where
      m': "merge_oslo_field new f m = Inr m'" "int_or_absent m' f" by blast
    have "map_of m' ''oslo_areas'' = map_of m ''oslo_areas''"
      "map_of m' ''oslo_terms'' = map_of m ''oslo_terms''"
      by (rule merge_oslo_field_other [OF m'(1)], simp add: 3)+
    with assms(1) m'(2) have "oslo_typed m'"
      by (simp add: oslo_typed_def 3 list_or_absent_def int_or_absent_def)
    with m'(1) show ?thesis by blast
  qed
qed

lemma fold_merge_oslo_field_returns:
  assumes "oslo_typed m" and "oslo_typed new" and "set fs \<subseteq> set oslo_fields"
  shows "\<exists>m'. fold_err (merge_oslo_field new) fs m = Inr m'"
  using assms
proof (induction fs arbitrary: m)
  case Nil
  then show ?case by simp
next
  case (Cons f fs)
  from Cons.prems have "f \<in> set oslo_fields" by simp
  from merge_oslo_field_returns [OF Cons.prems(1,2) this] obtain m1 where
    m1: "merge_oslo_field new f m = Inr m1" "oslo_typed m1" by blast
  from Cons.prems(3) have "set fs \<subseteq> set oslo_fields" by simp
  from Cons.IH [OF m1(2) Cons.prems(2) this] m1(1) show ?case by simp
qed

lemma merge_oslo_data_returns:
  assumes "list_or_absent existing ''oslo_sources''" and "oslo_typed existing"
    and "oslo_typed new"
  shows "\<exists>merged. merge_oslo_data existing new = Inr merged"
proof -
  from add_source_returns [OF assms(1), of new] obtain m0 where
    a: "add_source ''oslo_sources'' existing new = Inr m0" by blast
  have "oslo_typed m0"
    using assms(2) add_source_other [OF a]
    by (simp add: oslo_typed_def list_or_absent_def int_or_absent_def)
  from fold_merge_oslo_field_returns [OF this assms(3), of oslo_fields] a
  show ?thesis by (simp add: merge_oslo_data_def)
qed

section \<open>The coverage summary: auxiliary facts\<close>

lemma analyze_oslo_content_areas:
  "map_of (analyze_oslo_content xp text) ''oslo_areas'' =
     Some (PList (map PStr (filter (\<lambda>area. is_substr area (py_lower text)) oslo_keywords_omrader)))"
  by (simp add: analyze_oslo_content_def Let_def)

lemma areas_ok_classifier:
  assumes "map_of item ''oslo_areas'' = None
           \<or> (\<exists>xp text. map_of item ''oslo_areas'' = map_of (analyze_oslo_content xp text) ''oslo_areas'')"
  shows "areas_ok item"
proof (cases "map_of item ''oslo_areas''")
  case None
  then show ?thesis by (simp add: areas_ok_def)
next
  case (Some v)
  with assms obtain xp t where
    "map_of item ''oslo_areas'' = map_of (analyze_oslo_content xp t) ''oslo_areas''"
    by auto
  then have "map_of item ''oslo_areas'' =
      Some (PList (map PStr (filter (\<lambda>area. is_substr area (py_lower t)) oslo_keywords_omrader)))"
    by (simp only: analyze_oslo_content_areas)
  moreover have "set (map PStr (filter (\<lambda>area. is_substr area (py_lower t)) oslo_keywords_omrader))
      \<subseteq> area_values"
    unfolding area_values_def by auto
  ultimately show ?thesis by (simp add: areas_ok_def)
qed

lemma merge_oslo_field_areas:
  assumes "merge_oslo_field new ''oslo_areas'' m0 = Inr m1" and "areas_ok m0" and "areas_ok new"
  shows "areas_ok m1"
  using assms
  apply (auto simp: merge_oslo_field_def areas_ok_def map_of_dict_set has_key_def dict_get_def
      split: if_splits option.splits pyval.splits sum.splits)
   apply blast+
  done

lemma merge_oslo_data_areas:
  assumes "merge_oslo_data existing new = Inr m" and "areas_ok existing" and "areas_ok new"
  shows "areas_ok m"
proof -
  have f: "''oslo_areas'' \<in> set oslo_fields" by (simp add: oslo_fields_def)
  from merge_oslo_data_at [OF assms(1) f] obtain m0 m1 where
    x: "map_of m0 ''oslo_areas'' = map_of existing ''oslo_areas''"
      "merge_oslo_field new ''oslo_areas'' m0 = Inr m1"
      "map_of m ''oslo_areas'' = map_of m1 ''oslo_areas''"
    by blast
  from x(1) assms(2) have "areas_ok m0" by (simp add: areas_ok_def)
  from merge_oslo_field_areas [OF x(2) this assms(3)] x(3) show ?thesis
    by (simp add: areas_ok_def)
qed

lemma set_dict_set: "set (dict_set d k v) \<subseteq> insert (k, v) (set d)"
  by (induction d) (auto split: if_splits)

lemma unify_step_areas:
  assumes "unify_step (generate_oslo_key bi) merge_oslo_data item u = Inr u'"
    and "\<forall>r \<in> snd ` set u. areas_ok r" and "areas_ok item"
  shows "\<forall>r \<in> snd ` set u'. areas_ok r"
proof -
  from assms(1) obtain key where key: "generate_oslo_key bi item = Inr key"
    by (auto simp: unify_step_def split: sum.splits)
  show ?thesis
  proof (cases "map_of u key")
    case None
    with assms(1) key have "u' = dict_set u key item" by (simp add: unify_step_def)
    with set_dict_set [of u key item] assms(2,3) show ?thesis by auto
  next
    case (Some existing)
    with assms(1) key obtain merged where m: "merge_oslo_data existing item = Inr merged"
      "u' = dict_set u key merged"
      by (auto simp: unify_step_def split: sum.splits)
    from Some have "existing \<in> snd ` set u" by (force dest: map_of_SomeD)
    with assms(2) have "areas_ok existing" by blast
    from merge_oslo_data_areas [OF m(1) this assms(3)] have "areas_ok merged" .
    with set_dict_set [of u key merged] assms(2) m(2) show ?thesis by auto
  qed
qed

lemma oslo_unify_areas:
  assumes "oslo_unify bi items = Inr u" and "\<forall>item \<in> set items. areas_ok item"
  shows "\<forall>r \<in> snd ` set u. areas_ok r"
proof (rule fold_err_Inr_induct [OF assms(1) [unfolded oslo_unify_def],
      where P = "\<lambda>u. \<forall>r \<in> snd ` set u. areas_ok r"])
  show "\<forall>r \<in> snd ` set []. areas_ok r" by simp
next
  fix x s t
  assume "x \<in> set items" and "\<forall>r \<in> snd ` set s. areas_ok r"
    and "unify_step (generate_oslo_key bi) merge_oslo_data x s = Inr t"
  with assms(2) show "\<forall>r \<in> snd ` set t. areas_ok r"
    using unify_step_areas by blast
qed

lemma set_add_covered:
  assumes "set_add x acc = Inr acc'" and "covered_ok acc" and "x \<in> area_values"
  shows "covered_ok acc'"
proof -
  from assms(3) obtain s where s: "x = PStr s" by (auto simp: area_values_def)
  with assms(1) have "acc' = (if PStr s \<in> set acc then acc else acc @ [PStr s])"
    by (simp add: list_ex_py_eq_PStr)
  with assms(2,3) s show ?thesis by (auto simp: covered_ok_def)
qed

lemma set_update_covered:
  assumes "set_update (PList xs) acc = Inr acc'" and "covered_ok acc"
    and "set xs \<subseteq> area_values"
  shows "covered_ok acc'"
proof -
  from assms(1) have f: "fold_err set_add xs acc = Inr acc'" by (simp add: set_update_def)
  show ?thesis
    by (rule fold_err_Inr_induct [OF f, where P = covered_ok])
      (use assms(2,3) set_add_covered in blast)+
qed

lemma cover_item_covered:
  assumes "cover_item item acc = Inr acc'" and "covered_ok acc" and "areas_ok item"
  shows "covered_ok acc'"
proof (cases "map_of item ''oslo_areas''")
  case None
  with assms(1,2) show ?thesis by (simp add: cover_item_def has_key_def)
next
  case (Some v)
  with assms(3) obtain xs where xs: "v = PList xs" "set xs \<subseteq> area_values"
    by (auto simp: areas_ok_def split: pyval.splits)
  with Some assms(1) have "set_update (PList xs) acc = Inr acc'"
    by (simp add: cover_item_def has_key_def dict_get_def)
  from set_update_covered [OF this assms(2) xs(2)] show ?thesis .
qed

lemma covered_ok_length: "covered_ok acc \<Longrightarrow> length acc \<le> length oslo_keywords_omrader"
proof -
  assume a: "covered_ok acc"
  then have "length acc = card (set acc)" by (simp add: covered_ok_def distinct_card)
  also have "\<dots> \<le> card area_values"
    using a by (intro card_mono) (auto simp: covered_ok_def area_values_def)
  also have "\<dots> \<le> card (set oslo_keywords_omrader)"
    unfolding area_values_def by (rule card_image_le) simp
  also have "\<dots> \<le> length oslo_keywords_omrader" by (rule card_length)
  finally show ?thesis .
qed

lemma assess_oslo_coverage_bounded:
  assumes "assess_oslo_coverage u = Inr cov" and "\<forall>r \<in> snd ` set u. areas_ok r"
  shows "covered_oslo_areas cov \<le> total_oslo_areas cov \<and> coverage_percentage cov \<le> 100"
proof -
  from assms(1) obtain covered where c: "fold_err cover_item (map snd u) [] = Inr covered"
    and cov: "covered_oslo_areas cov = length covered"
      "total_oslo_areas cov = length oslo_keywords_omrader"
      "coverage_percentage cov =
         (of_nat (length covered) / of_nat (length oslo_keywords_omrader)) * 100"
    by (auto simp: assess_oslo_coverage_def split: sum.splits)
  have "covered_ok covered"
  proof (rule fold_err_Inr_induct [OF c, where P = covered_ok])
    show "covered_ok []" by (simp add: covered_ok_def)
  next
    fix x s t
    assume "x \<in> set (map snd u)" and "covered_ok s" and "cover_item x s = Inr t"
    with assms(2) show "covered_ok t" using cover_item_covered by auto
  qed
  then have le: "length covered \<le> length oslo_keywords_omrader" by (rule covered_ok_length)
  have pos: "0 < length oslo_keywords_omrader" by (simp add: oslo_keywords_omrader_def)
  have "(of_nat (length covered) :: rat) \<le> of_nat (length oslo_keywords_omrader)"
    using le by simp
  then have "(of_nat (length covered) :: rat) / of_nat (length oslo_keywords_omrader) \<le> 1"
    using pos by (simp add: divide_le_eq_1)
  then have "(of_nat (length covered) / of_nat (length oslo_keywords_omrader)) * 100 \<le> 1 * (100::rat)"
    by (intro mult_right_mono) simp_all
  then have "(of_nat (length covered) / of_nat (length oslo_keywords_omrader)) * 100 \<le> (100::rat)"
    by (simp only: mult_1)
  with le cov show ?thesis by simp
qed

section \<open>The Oslo merge on list objects: auxiliary facts\<close>

lemma store_extends_refl: "store_extends st st"
  by (simp add: store_extends_def)

lemma store_extends_trans:
  "store_extends st1 st2 \<Longrightarrow> store_extends st2 st3 \<Longrightarrow> store_extends st1 st3"
  unfolding store_extends_def
  by (meson le_trans less_le_trans prefix_order.order_trans)

lemma store_extends_extend_obj: "store_extends st (extend_obj c ys st)"
  by (simp add: store_extends_def extend_obj_def)

lemma store_extends_new_list: "new_list xs st = (c, st') \<Longrightarrow> store_extends st st'"
  by (auto simp: store_extends_def new_list_def)

lemma store_extends_obj:
  "store_extends st st' \<Longrightarrow> a < fresh st \<Longrightarrow> \<exists>zs. objs st' a = objs st a @ zs"
  by (auto simp: store_extends_def prefix_def)

lemma store_extends_fresh: "store_extends st st' \<Longrightarrow> a < fresh st \<Longrightarrow> a < fresh st'"
  by (auto simp: store_extends_def)

lemma store_extends_truthy:
  assumes "store_extends st st'" and "allocated st fv" and "truthy (read_val st fv)"
  shows "truthy (read_val st' fv)"
proof (cases fv)
  case (FListRef b)
  with assms(2) have "b < fresh st" by (simp add: allocated_def)
  from store_extends_obj [OF assms(1) this] obtain zs where "objs st' b = objs st b @ zs" ..
  with assms(3) FListRef show ?thesis by simp
qed (use assms(3) in simp_all)

lemma store_extends_allocated:
  "store_extends st st' \<Longrightarrow> allocated st fv \<Longrightarrow> allocated st' fv"
  by (auto simp: allocated_def store_extends_def split: field_val.splits)

lemma add_source_st_other:
  assumes "add_source_st skey st existing new = Inr (st1, m0)" and "k \<noteq> skey"
  shows "map_of m0 k = map_of existing k"
  using assms
  by (auto simp: add_source_st_def Let_def new_list_def map_of_dict_set
      split: if_splits sum.splits bool.splits field_val.splits prod.splits)

lemma add_source_st_extends:
  assumes "add_source_st skey st existing new = Inr (st1, m0)"
  shows "store_extends st st1"
proof -
  obtain st0 m where p:
    "(st0, m) = (if has_key existing skey then (st, existing)
             else (case new_list [read_val st (field_get existing ''source'' (FStr ''unknown''))] st of
                     (a, st') \<Rightarrow> (st', dict_set existing skey (FListRef a))))"
    by (metis surj_pair)
  then have e0: "store_extends st st0"
    by (auto simp: store_extends_refl split: if_splits prod.splits dest: store_extends_new_list)
  from assms p [symmetric] have "st1 = st0 \<or> (\<exists>c ys. st1 = extend_obj c ys st0)"
    by (auto simp: add_source_st_def Let_def split: sum.splits bool.splits field_val.splits)
  with e0 show ?thesis
    using store_extends_extend_obj store_extends_trans by blast
qed

text \<open>The list object of another field is left alone, if the sources field of
  \<^verbatim>\<open>existing\<close> is not that object.\<close>

lemma add_source_st_obj:
  assumes "add_source_st skey st existing new = Inr (st1, m0)" and "a < fresh st"
    and "map_of existing skey \<noteq> Some (FListRef a)"
  shows "objs st1 a = objs st a"
  using assms
  by (auto simp: add_source_st_def Let_def new_list_def map_of_dict_set has_key_def
      field_get_def extend_obj_def
      split: if_splits sum.splits bool.splits field_val.splits prod.splits option.splits)

lemma merge_oslo_field_st_other:
  assumes "merge_oslo_field_st new g (st, m) = Inr (st', m')" and "k \<noteq> g"
  shows "map_of m' k = map_of m k"
  using assms
  by (auto simp: merge_oslo_field_st_def map_of_dict_set
      split: if_splits sum.splits field_val.splits)

lemma merge_oslo_field_st_store:
  assumes "merge_oslo_field_st new g (st, m) = Inr (st', m')"
  shows "st' = st \<or> (\<exists>c ys. map_of m g = Some (FListRef c) \<and> st' = extend_obj c ys st)"
  using assms
  by (auto simp: merge_oslo_field_st_def has_key_def field_get_def
      split: if_splits sum.splits field_val.splits option.splits)

lemma merge_oslo_field_st_extends:
  assumes "merge_oslo_field_st new g (st, m) = Inr (st', m')"
  shows "store_extends st st'"
  using merge_oslo_field_st_store [OF assms] store_extends_refl store_extends_extend_obj
  by auto

lemma py_iter_nonempty: "py_iter v = Inr ys \<Longrightarrow> truthy v \<Longrightarrow> ys \<noteq> []"
  by (cases v) auto

text \<open>The step for a field that holds a list object in \<^verbatim>\<open>merged\<close> and is populated in
  \<^verbatim>\<open>new\<close>.\<close>

lemma merge_oslo_field_st_extend:
  assumes "merge_oslo_field_st new f (st, m) = Inr (st', m')"
    and "map_of m f = Some (FListRef a)"
    and "has_key new f" and "truthy (read_val st (field_get new f FNone))"
  shows "m' = m \<and> (\<exists>ys. ys \<noteq> [] \<and> py_iter (read_val st (field_get new f FNone)) = Inr ys
           \<and> st' = extend_obj a ys st)"
  using assms
  by (auto simp: merge_oslo_field_st_def has_key_def field_get_def
      split: if_splits sum.splits dest: py_iter_nonempty)

lemma fold_merge_oslo_field_st_other:
  assumes "fold_err (merge_oslo_field_st new) fs (st, m) = Inr (st', m')" and "k \<notin> set fs"
  shows "map_of m' k = map_of m k"
  using assms
proof (induction fs arbitrary: st m)
  case Nil
  then show ?case by simp
next
  case (Cons g fs)
  from Cons.prems(1) obtain st1 m1 where s: "merge_oslo_field_st new g (st, m) = Inr (st1, m1)"
    "fold_err (merge_oslo_field_st new) fs (st1, m1) = Inr (st', m')"
    by (auto split: sum.splits)
  from Cons.prems(2) have "k \<noteq> g" "k \<notin> set fs" by auto
  with Cons.IH [OF s(2)] merge_oslo_field_st_other [OF s(1)] show ?case by simp
qed

lemma fold_merge_oslo_field_st_extends:
  assumes "fold_err (merge_oslo_field_st new) fs (st, m) = Inr (st', m')"
  shows "store_extends st st'"
  using assms
proof (induction fs arbitrary: st m)
  case Nil
  then show ?case by (simp add: store_extends_refl)
next
  case (Cons g fs)
  from Cons.prems(1) obtain st1 m1 where s: "merge_oslo_field_st new g (st, m) = Inr (st1, m1)"
    "fold_err (merge_oslo_field_st new) fs (st1, m1) = Inr (st', m')"
    by (auto split: sum.splits)
  from merge_oslo_field_st_extends [OF s(1)] Cons.IH [OF s(2)] show ?case
    by (rule store_extends_trans)
qed

text \<open>The loop leaves a list object alone when none of its fields holds it in
  \<^verbatim>\<open>merged\<close>.\<close>

lemma fold_merge_oslo_field_st_obj:
  assumes "fold_err (merge_oslo_field_st new) fs (st, m) = Inr (st', m')"
    and "distinct fs" and "\<forall>g \<in> set fs. map_of m g \<noteq> Some (FListRef a)"
  shows "objs st' a = objs st a"
  using assms
proof (induction fs arbitrary: st m)
  case Nil
  then show ?case by simp
next
  case (Cons g fs)
  from Cons.prems(1) obtain st1 m1 where s: "merge_oslo_field_st new g (st, m) = Inr (st1, m1)"
    "fold_err (merge_oslo_field_st new) fs (st1, m1) = Inr (st', m')"
    by (auto split: sum.splits)
  from Cons.prems(3) have g: "map_of m g \<noteq> Some (FListRef a)" by simp
  from merge_oslo_field_st_store [OF s(1)] g have 1: "objs st1 a = objs st a"
    by (auto simp: extend_obj_def)
  have "\<forall>h \<in> set fs. map_of m1 h \<noteq> Some (FListRef a)"
  proof
    fix h assume h: "h \<in> set fs"
    with Cons.prems(2) have "h \<noteq> g" by auto
    from merge_oslo_field_st_other [OF s(1) this] Cons.prems(3) h
    show "map_of m1 h \<noteq> Some (FListRef a)" by simp
  qed
  with Cons.IH [OF s(2)] Cons.prems(2) 1 show ?case by simp
qed

text \<open>The loop extends the list object of a field it goes through.\<close>

lemma fold_merge_oslo_field_st_extend:
  assumes "fold_err (merge_oslo_field_st new) fs (st, m) = Inr (st', m')"
    and "distinct fs" and "f \<in> set fs"
    and "map_of m f = Some (FListRef a)" and "a < fresh st"
    and "has_key new f" and "truthy (read_val st (field_get new f FNone))"
    and "allocated st (field_get new f FNone)"
  shows "map_of m' f = Some (FListRef a) \<and> (\<exists>ys. ys \<noteq> [] \<and> objs st' a = objs st a @ ys)"
  using assms
proof (induction fs arbitrary: st m)
  case Nil
  then show ?case by simp
next
  case (Cons g fs)
  from Cons.prems(1) obtain st1 m1 where s: "merge_oslo_field_st new g (st, m) = Inr (st1, m1)"
    "fold_err (merge_oslo_field_st new) fs (st1, m1) = Inr (st', m')"
    by (auto split: sum.splits)
  show ?case
  proof (cases "g = f")
    case True
    from merge_oslo_field_st_extend [OF s(1) [unfolded True] Cons.prems(4,6,7)]
    obtain ys where ys: "m1 = m" "ys \<noteq> []" "st1 = extend_obj a ys st" by blast
    from True Cons.prems(2) have nf: "f \<notin> set fs" by simp
    from fold_merge_oslo_field_st_other [OF s(2) nf] ys(1) Cons.prems(4)
    have 1: "map_of m' f = Some (FListRef a)" by simp
    from ys(3) Cons.prems(5) have a1: "a < fresh st1" by (simp add: extend_obj_def)
    from store_extends_obj [OF fold_merge_oslo_field_st_extends [OF s(2)] a1]
    obtain zs where "objs st' a = objs st1 a @ zs" ..
    with ys(3) have "objs st' a = objs st a @ (ys @ zs)" by (simp add: extend_obj_def)
    with ys(2) 1 show ?thesis by blast
  next
    case False
    with Cons.prems(3) have f: "f \<in> set fs" by simp
    from Cons.prems(2) have d: "distinct fs" by simp
    have e: "store_extends st st1" by (rule merge_oslo_field_st_extends [OF s(1)])
    from merge_oslo_field_st_other [OF s(1), of f] False Cons.prems(4)
    have m1: "map_of m1 f = Some (FListRef a)" by simp
    from Cons.IH [OF s(2) d f m1 store_extends_fresh [OF e Cons.prems(5)] Cons.prems(6)
        store_extends_truthy [OF e Cons.prems(8,7)] store_extends_allocated [OF e Cons.prems(8)]]
    obtain ys where ys: "map_of m' f = Some (FListRef a)" "ys \<noteq> []" "objs st' a = objs st1 a @ ys"
      by blast
    from store_extends_obj [OF e Cons.prems(5)] obtain zs where "objs st1 a = objs st a @ zs" ..
    with ys show ?thesis by auto
  qed
qed

lemma read_val_cong_obj:
  "(\<And>b. fv = FListRef b \<Longrightarrow> objs st' b = objs st b) \<Longrightarrow> read_val st' fv = read_val st fv"
  by (cases fv) simp_all

text \<open>When no other field of \<^verbatim>\<open>merged\<close> that the loop goes through holds the list
  object of the field, nor the one \<^verbatim>\<open>new\<close> has there, the loop appends to the object
  exactly the elements \<^verbatim>\<open>new\<close> had at the start.\<close>

lemma fold_merge_oslo_field_st_exact:
  assumes "fold_err (merge_oslo_field_st new) fs (st, m) = Inr (st', m')"
    and "distinct fs" and "f \<in> set fs"
    and "map_of m f = Some (FListRef a)"
    and "has_key new f" and "truthy (read_val st (field_get new f FNone))"
    and "\<forall>g \<in> set fs. g \<noteq> f \<longrightarrow> map_of m g \<noteq> Some (FListRef a)
            \<and> (\<forall>b. field_get new f FNone = FListRef b \<longrightarrow> map_of m g \<noteq> Some (FListRef b))"
  shows "\<exists>ys. py_iter (read_val st (field_get new f FNone)) = Inr ys \<and> objs st' a = objs st a @ ys"
  using assms
proof (induction fs arbitrary: st m)
  case Nil
  then show ?case by simp
next
  case (Cons g fs)
  from Cons.prems(1) obtain st1 m1 where s: "merge_oslo_field_st new g (st, m) = Inr (st1, m1)"
    "fold_err (merge_oslo_field_st new) fs (st1, m1) = Inr (st', m')"
    by (auto split: sum.splits)
  show ?case
  proof (cases "g = f")
    case True
    from merge_oslo_field_st_extend [OF s(1) [unfolded True] Cons.prems(4,5,6)]
    obtain ys where ys: "m1 = m" "py_iter (read_val st (field_get new f FNone)) = Inr ys"
      "st1 = extend_obj a ys st" by blast
    from True Cons.prems(2) have nf: "f \<notin> set fs" and d: "distinct fs" by simp_all
    have "\<forall>h \<in> set fs. map_of m1 h \<noteq> Some (FListRef a)"
      using Cons.prems(7) nf ys(1) by auto
    from fold_merge_oslo_field_st_obj [OF s(2) d this] ys(3)
    have "objs st' a = objs st a @ ys" by (simp add: extend_obj_def)
    with ys(2) show ?thesis by blast
  next
    case False
    with Cons.prems(3) have f: "f \<in> set fs" by simp
    from Cons.prems(2) have d: "distinct fs" and gn: "g \<notin> set fs" by simp_all
    from Cons.prems(7) False have g: "map_of m g \<noteq> Some (FListRef a)"
      "\<And>b. field_get new f FNone = FListRef b \<Longrightarrow> map_of m g \<noteq> Some (FListRef b)"
      by simp_all
    from merge_oslo_field_st_store [OF s(1)] g
    have o: "objs st1 a = objs st a"
      and r: "\<And>b. field_get new f FNone = FListRef b \<Longrightarrow> objs st1 b = objs st b"
      by (auto simp: extend_obj_def)
    from r have rd: "read_val st1 (field_get new f FNone) = read_val st (field_get new f FNone)"
      by (rule read_val_cong_obj)
    have keep: "\<And>h. h \<noteq> g \<Longrightarrow> map_of m1 h = map_of m h"
      by (rule merge_oslo_field_st_other [OF s(1)])
    have m1f: "map_of m1 f = Some (FListRef a)"
      using keep [of f] False Cons.prems(4) by simp
    have rest: "\<forall>h \<in> set fs. h \<noteq> f \<longrightarrow> map_of m1 h \<noteq> Some (FListRef a)
            \<and> (\<forall>b. field_get new f FNone = FListRef b \<longrightarrow> map_of m1 h \<noteq> Some (FListRef b))"
    proof (intro ballI impI)
      fix h assume h: "h \<in> set fs" "h \<noteq> f"
      with gn have "h \<noteq> g" by auto
      with keep [of h] Cons.prems(7) h
      show "map_of m1 h \<noteq> Some (FListRef a)
            \<and> (\<forall>b. field_get new f FNone = FListRef b \<longrightarrow> map_of m1 h \<noteq> Some (FListRef b))"
        by simp
    qed
    from Cons.IH [OF s(2) d f m1f Cons.prems(5) _ rest] Cons.prems(6) rd o
    show ?thesis by simp
  qed
qed

lemma merge_oslo_data_stE:
  assumes "merge_oslo_data_st st existing new = Inr (st', merged)"
  obtains st1 m0 where "add_source_st ''oslo_sources'' st existing new = Inr (st1, m0)"
    and "fold_err (merge_oslo_field_st new) oslo_fields (st1, m0) = Inr (st', merged)"
  using assms by (auto simp: merge_oslo_data_st_def split: sum.splits)

lemma read_record_eqD:
  assumes "read_record st' r = read_record st r" and "map_of r k = Some fv"
  shows "read_val st' fv = read_val st fv"
proof -
  from assms(2) have "(k, fv) \<in> set r" by (rule map_of_SomeD)
  with assms(1) show ?thesis
    by (auto simp: read_record_def)
qed

section \<open>The key generators\<close>

lemma lower_Oslo: "py_lower ''Oslo'' = ''oslo''"
  by code_simp

lemma plan_frogner_title:
  "py_lower ''Reguleringsplan Frogner Park'' = ''reguleringsplan frogner park''"
  by code_simp

lemma plan_frogner_area: "first_area_in ''reguleringsplan frogner park'' = Some ''frogner''"
  by code_simp

lemma plan_frogner_words:
  "take 3 (findall_words [] ''reguleringsplan frogner park'') =
     [''reguleringsplan'', ''frogner'', ''park'']"
  by code_simp

lemma hash_bi7: "hash_mod_1000 bi7 s = ''7''"
  by (simp add: hash_mod_1000_def bi7_def str_of_nat.simps)

text \<open>The two key generators on a record whose fields have the right types: no branch
  raises but the one for an identifier that is not a string.\<close>

lemma generate_plan_key_typed:
  assumes "str_or_absent r ''municipality''" and "str_or_absent r ''title''"
  shows "generate_plan_key r =
           (if truthy (dict_get r ''plan_id'' (PStr ''''))
            then (case dict_get r ''plan_id'' (PStr '''') of
                    PStr s \<Rightarrow> Inr (py_lower (str_field r ''municipality'' ''unknown'') @ ''_'' @ s)
                  | _ \<Rightarrow> Inl TypeError)
            else Inr (join ''_'' (py_lower (str_field r ''municipality'' ''unknown'')
                     # take 3 (findall_words [] (py_lower (str_field r ''title'' ''''))))))"
  using assms
  by (auto simp: generate_plan_key_def lower_of_dict_get Let_def split: pyval.splits)

lemma generate_oslo_key_typed:
  assumes "str_or_absent r ''title''"
  shows "generate_oslo_key bi r =
           (if truthy (dict_get r ''plan_id'' (PStr ''''))
            then Inr (''oslo_'' @ py_str bi (dict_get r ''plan_id'' (PStr '''')))
            else (case first_area_in (py_lower (str_field r ''title'' '''')) of
                    Some area \<Rightarrow>
                      Inr (''oslo_'' @ area @ ''_'' @
                             hash_mod_1000 bi (py_lower (str_field r ''title'' '''')))
                  | None \<Rightarrow>
                      Inr (''oslo_general_'' @ hash_mod_1000 bi (py_str bi (PDict r)))))"
  using assms
  by (auto simp: generate_oslo_key_def lower_of_dict_get Let_def first_area_in_Nil
      split: option.splits)

text \<open>
  Claim C1, as the code has it.  For a record whose \<^verbatim>\<open>municipality\<close> and \<^verbatim>\<open>title\<close>
  are strings or absent:
  \<^item> with a non-empty string \<^verbatim>\<open>plan_id\<close>, \<^verbatim>\<open>generate_plan_key\<close> returns the lowercased
    municipality (\<^verbatim>\<open>unknown\<close> when absent), an underscore and the identifier, and
    \<^verbatim>\<open>generate_oslo_key\<close> returns \<^verbatim>\<open>oslo_\<close> followed by the identifier;
  \<^item> with an empty or absent \<^verbatim>\<open>plan_id\<close>, \<^verbatim>\<open>generate_plan_key\<close> returns the
    lowercased municipality joined by underscores with the first word tokens of the
    lowercased title, at most three and possibly none, while \<^verbatim>\<open>generate_oslo_key\<close>
    returns \<^verbatim>\<open>oslo_\<close>, the first configured area name that occurs in the lowercased
    title, an underscore and the title's hash modulo 1000, or, when no area name occurs,
    \<^verbatim>\<open>oslo_general_\<close> and the hash modulo 1000 of the record's string form.
\<close>

theorem key_generators_by_case:
  assumes "str_or_absent r ''municipality''" and "str_or_absent r ''title''"
  shows "(\<forall>pid. dict_get r ''plan_id'' (PStr '''') = PStr pid \<and> pid \<noteq> [] \<longrightarrow>
            generate_plan_key r =
              Inr (py_lower (str_field r ''municipality'' ''unknown'') @ ''_'' @ pid)
          \<and> generate_oslo_key bi r = Inr (''oslo_'' @ pid))
       \<and> (\<not> truthy (dict_get r ''plan_id'' (PStr '''')) \<longrightarrow>
            generate_plan_key r =
              Inr (join ''_'' (py_lower (str_field r ''municipality'' ''unknown'')
                     # take 3 (findall_words [] (py_lower (str_field r ''title'' '''')))))
          \<and> generate_oslo_key bi r =
              (case first_area_in (py_lower (str_field r ''title'' '''')) of
                 Some area \<Rightarrow>
                   Inr (''oslo_'' @ area @ ''_'' @
                          hash_mod_1000 bi (py_lower (str_field r ''title'' '''')))
               | None \<Rightarrow>
                   Inr (''oslo_general_'' @ hash_mod_1000 bi (py_str bi (PDict r)))))"
  by (simp add: generate_plan_key_typed [OF assms] generate_oslo_key_typed [OF assms(2)]
      py_str_def)

text \<open>The theorem at the sample plan, which has an identifier, and at the record of the
  specification's example, which has none.\<close>

theorem key_generators_by_case_witness:
  "generate_plan_key plan_bjorvika = Inr ''oslo_oslo-sample-001''
   \<and> generate_oslo_key bi7 plan_bjorvika = Inr ''oslo_oslo-sample-001''
   \<and> generate_plan_key plan_frogner = Inr ''oslo_reguleringsplan_frogner_park''
   \<and> generate_oslo_key bi7 plan_frogner = Inr ''oslo_frogner_7''"
proof -
  have a: "str_or_absent plan_bjorvika ''municipality''" "str_or_absent plan_bjorvika ''title''"
    by (simp_all add: str_or_absent_def plan_bjorvika_def)
  have b: "str_or_absent plan_frogner ''municipality''" "str_or_absent plan_frogner ''title''"
    by (simp_all add: str_or_absent_def plan_frogner_def)
  have pa: "dict_get plan_bjorvika ''plan_id'' (PStr '''') = PStr ''oslo-sample-001''"
    by (simp add: dict_get_def plan_bjorvika_def)
  have pb: "\<not> truthy (dict_get plan_frogner ''plan_id'' (PStr ''''))"
    by (simp add: dict_get_def plan_frogner_def)
  have ma: "str_field plan_bjorvika ''municipality'' ''unknown'' = ''Oslo''"
    by (simp add: str_field_def plan_bjorvika_def)
  have mb: "str_field plan_frogner ''municipality'' ''unknown'' = ''Oslo''"
    by (simp add: str_field_def plan_frogner_def)
  have tb: "str_field plan_frogner ''title'' '''' = ''Reguleringsplan Frogner Park''"
    by (simp add: str_field_def plan_frogner_def)
  from key_generators_by_case [OF a, of bi7] pa
  have "generate_plan_key plan_bjorvika =
          Inr (py_lower (str_field plan_bjorvika ''municipality'' ''unknown'')
                 @ ''_'' @ ''oslo-sample-001'')
        \<and> generate_oslo_key bi7 plan_bjorvika = Inr (''oslo_'' @ ''oslo-sample-001'')"
    by blast
  then have 1: "generate_plan_key plan_bjorvika = Inr ''oslo_oslo-sample-001''
        \<and> generate_oslo_key bi7 plan_bjorvika = Inr ''oslo_oslo-sample-001''"
    unfolding ma lower_Oslo by simp
  from key_generators_by_case [OF b, of bi7] pb
  have "generate_plan_key plan_frogner =
          Inr (join ''_'' (py_lower (str_field plan_frogner ''municipality'' ''unknown'')
                 # take 3 (findall_words [] (py_lower (str_field plan_frogner ''title'' '''')))))
        \<and> generate_oslo_key bi7 plan_frogner =
          (case first_area_in (py_lower (str_field plan_frogner ''title'' '''')) of
             Some area \<Rightarrow>
               Inr (''oslo_'' @ area @ ''_'' @
                      hash_mod_1000 bi7 (py_lower (str_field plan_frogner ''title'' '''')))
           | None \<Rightarrow>
               Inr (''oslo_general_'' @ hash_mod_1000 bi7 (py_str bi7 (PDict plan_frogner))))"
    by blast
  then have 2: "generate_plan_key plan_frogner = Inr ''oslo_reguleringsplan_frogner_park''
     \<and> generate_oslo_key bi7 plan_frogner = Inr ''oslo_frogner_7''"
    unfolding mb tb lower_Oslo plan_frogner_title plan_frogner_words plan_frogner_area hash_bi7
    by simp
  from 1 2 show ?thesis by simp
qed

text \<open>The Oslo key of the record of the specification's example, which has no
  identifier, whatever the hash function is.\<close>

lemma generate_oslo_key_frogner:
  "generate_oslo_key bi plan_frogner =
     Inr (''oslo_frogner_'' @ hash_mod_1000 bi ''reguleringsplan frogner park'')"
proof -
  have t: "lower_of (PStr ''Reguleringsplan Frogner Park'') = Inr ''reguleringsplan frogner park''"
    by (simp only: lower_of.simps plan_frogner_title)
  show ?thesis
    by (simp add: generate_oslo_key_def plan_frogner_def dict_get_def t plan_frogner_area
          del: lower_of.simps)
qed

lemma hash_seed_1_frogner:
  "hash_mod_1000 (bi7\<lparr>py_hash := hash_seed_1\<rparr>) ''reguleringsplan frogner park'' = ''696''"
  by (simp add: hash_mod_1000_def hash_seed_1_def str_of_nat.simps)

text \<open>Claim C1 as stated fails for \<^verbatim>\<open>generate_oslo_key\<close>: for the record of the
  specification's example, which has no identifier, the key is the area name and a
  hash (696 in the run with seed 1), not the municipality joined with the first three
  title tokens, which is what \<^verbatim>\<open>generate_plan_key\<close> returns.\<close>

theorem generate_oslo_key_not_title_tokens:
  "generate_oslo_key (bi7\<lparr>py_hash := hash_seed_1\<rparr>) plan_frogner = Inr ''oslo_frogner_696''
   \<and> generate_plan_key plan_frogner = Inr ''oslo_reguleringsplan_frogner_park''
   \<and> generate_oslo_key (bi7\<lparr>py_hash := hash_seed_1\<rparr>) plan_frogner
       \<noteq> generate_plan_key plan_frogner"
proof -
  have k: "generate_oslo_key (bi7\<lparr>py_hash := hash_seed_1\<rparr>) plan_frogner
             = Inr ''oslo_frogner_696''"
    by (simp add: generate_oslo_key_frogner hash_seed_1_frogner)
  have p: "generate_plan_key plan_frogner = Inr ''oslo_reguleringsplan_frogner_park''"
    by code_simp
  show ?thesis unfolding k p by simp
qed

lemma py_lower_Nil_iff: "py_lower s = [] \<longleftrightarrow> s = []"
  by (simp add: py_lower_def)

text \<open>
  Claim C2, as the code has it.  For a record whose \<^verbatim>\<open>municipality\<close> and \<^verbatim>\<open>title\<close>
  are strings or absent and whose \<^verbatim>\<open>plan_id\<close> is a string, \<^verbatim>\<open>None\<close> or absent, both
  key generators return a key (they are total functions of the model, and the result is
  no error).  The key of \<^verbatim>\<open>generate_oslo_key\<close> is never empty.  The key of
  \<^verbatim>\<open>generate_plan_key\<close> is empty exactly when the municipality is present and empty,
  there is no identifier and the title has no word token.
\<close>

theorem key_generators_return:
  assumes "str_or_absent r ''municipality''" and "str_or_absent r ''title''"
    and "str_or_absent r ''plan_id'' \<or> map_of r ''plan_id'' = Some PNone"
  shows "\<exists>k1 k2. generate_plan_key r = Inr k1 \<and> generate_oslo_key bi r = Inr k2 \<and> k2 \<noteq> []
           \<and> (k1 = [] \<longleftrightarrow>
                  str_field r ''municipality'' ''unknown'' = []
                  \<and> \<not> truthy (dict_get r ''plan_id'' (PStr ''''))
                  \<and> findall_words [] (py_lower (str_field r ''title'' '''')) = [])"
proof (cases "truthy (dict_get r ''plan_id'' (PStr ''''))")
  case True
  with assms(3) obtain pid where pid: "dict_get r ''plan_id'' (PStr '''') = PStr pid" "pid \<noteq> []"
    by (auto simp: str_or_absent_def dict_get_def split: option.splits pyval.splits)
  with True show ?thesis
    by (simp add: generate_plan_key_typed [OF assms(1,2)] generate_oslo_key_typed [OF assms(2)])
next
  case False
  have "\<exists>k2. generate_oslo_key bi r = Inr k2 \<and> k2 \<noteq> []"
    using False by (simp add: generate_oslo_key_typed [OF assms(2)] split: option.splits)
  with False show ?thesis
    by (simp add: generate_plan_key_typed [OF assms(1,2)] join_Cons_Nil_iff py_lower_Nil_iff)
qed

text \<open>The theorem at the sample plan: that record satisfies the three conditions.\<close>

theorem key_generators_return_witness:
  "\<exists>k1 k2. generate_plan_key plan_bjorvika = Inr k1
      \<and> generate_oslo_key bi7 plan_bjorvika = Inr k2 \<and> k2 \<noteq> [] \<and> k1 \<noteq> []"
proof -
  have a: "str_or_absent plan_bjorvika ''municipality''" "str_or_absent plan_bjorvika ''title''"
    "str_or_absent plan_bjorvika ''plan_id'' \<or> map_of plan_bjorvika ''plan_id'' = Some PNone"
    by (simp_all add: str_or_absent_def plan_bjorvika_def)
  have "str_field plan_bjorvika ''municipality'' ''unknown'' \<noteq> []"
    by (simp add: str_field_def plan_bjorvika_def)
  with key_generators_return [OF a, of bi7] show ?thesis by blast
qed

text \<open>Claim C2 as stated fails: a record whose three fields are empty strings gets
  the empty key from \<^verbatim>\<open>generate_plan_key\<close>, and a record whose title is \<^verbatim>\<open>None\<close>
  makes both key generators raise (\<^verbatim>\<open>None\<close> has no method \<^verbatim>\<open>lower\<close>).\<close>

theorem generate_plan_key_empty:
  "generate_plan_key [(''municipality'', PStr ''''), (''title'', PStr ''''), (''plan_id'', PStr '''')]
     = Inr ''''
   \<and> generate_plan_key [(''municipality'', PStr ''Oslo''), (''title'', PNone)]
       = Inl AttributeError
   \<and> generate_oslo_key bi7 [(''municipality'', PStr ''Oslo''), (''title'', PNone)]
       = Inl AttributeError"
  by (simp add: generate_plan_key_def generate_oslo_key_def dict_get_def py_lower_def)

text \<open>Whatever the hash function is, two of the 1001 records \<^verbatim>\<open>{'source': i}\<close>, none
  of which has an identifier, a title or a municipality, get the same Oslo key: there
  are only a thousand keys of the form \<^verbatim>\<open>oslo_general_N\<close>.\<close>

lemma generate_oslo_key_collision:
  "\<exists>i j. i \<noteq> j \<and> generate_oslo_key bi [(''source'', PInt i)]
                    = generate_oslo_key bi [(''source'', PInt j)]"
proof -
  let ?f = "\<lambda>n::nat. nat (py_hash bi (py_str bi (PDict [(''source'', PInt (int n))])) mod 1000)"
  have "?f ` {0..1000} \<subseteq> {0..<1000}"
    by auto
  then have "card (?f ` {0..1000}) \<le> card {0..<1000::nat}"
    by (intro card_mono) auto
  then have "card (?f ` {0..1000}) < card {0..1000::nat}"
    by simp
  then have "\<not> inj_on ?f {0..1000}"
    by (rule pigeonhole)
  then obtain m n where mn: "m \<noteq> n" "?f m = ?f n"
    by (auto simp: inj_on_def)
  have "generate_oslo_key bi [(''source'', PInt (int m))]
          = generate_oslo_key bi [(''source'', PInt (int n))]"
    using mn(2)
    by (simp add: generate_oslo_key_def dict_get_def first_area_in_Nil hash_mod_1000_def py_lower_def)
  moreover have "int m \<noteq> int n" using mn(1) by simp
  ultimately show ?thesis by blast
qed

text \<open>
  Claim C7, as the code has it.  For a record with no \<^verbatim>\<open>plan_id\<close>, no \<^verbatim>\<open>title\<close> and
  no \<^verbatim>\<open>municipality\<close>, neither key generator raises; \<^verbatim>\<open>generate_oslo_key\<close> returns
  \<^verbatim>\<open>oslo_general_\<close> followed by the hash modulo 1000 of the record's string form, and
  \<^verbatim>\<open>generate_plan_key\<close> returns the constant \<^verbatim>\<open>unknown\<close>.  The key does not isolate the
  record: under \<^verbatim>\<open>generate_plan_key\<close> all such records share one key, and under
  \<^verbatim>\<open>generate_oslo_key\<close> two different such records with the same key always exist.
\<close>

theorem malformed_record_keys:
  assumes "map_of r ''plan_id'' = None" and "map_of r ''title'' = None"
    and "map_of r ''municipality'' = None"
  shows "generate_plan_key r = Inr ''unknown''
       \<and> generate_oslo_key bi r = Inr (''oslo_general_'' @ hash_mod_1000 bi (py_str bi (PDict r)))
       \<and> (\<exists>r1 r2. r1 \<noteq> r2
             \<and> map_of r1 ''plan_id'' = None \<and> map_of r1 ''title'' = None
             \<and> map_of r1 ''municipality'' = None
             \<and> map_of r2 ''plan_id'' = None \<and> map_of r2 ''title'' = None
             \<and> map_of r2 ''municipality'' = None
             \<and> generate_oslo_key bi r1 = generate_oslo_key bi r2)"
proof -
  have 1: "generate_plan_key r = Inr ''unknown''"
    using assms by (simp add: generate_plan_key_def dict_get_def py_lower_def) code_simp
  have 2: "generate_oslo_key bi r = Inr (''oslo_general_'' @ hash_mod_1000 bi (py_str bi (PDict r)))"
    using assms by (simp add: generate_oslo_key_def dict_get_def py_lower_def first_area_in_Nil)
  from generate_oslo_key_collision [of bi] obtain i j where
    ij: "i \<noteq> j" "generate_oslo_key bi [(''source'', PInt i)] = generate_oslo_key bi [(''source'', PInt j)]"
    by blast
  have 3: "\<exists>r1 r2. r1 \<noteq> r2
             \<and> map_of r1 ''plan_id'' = None \<and> map_of r1 ''title'' = None
             \<and> map_of r1 ''municipality'' = None
             \<and> map_of r2 ''plan_id'' = None \<and> map_of r2 ''title'' = None
             \<and> map_of r2 ''municipality'' = None
             \<and> generate_oslo_key bi r1 = generate_oslo_key bi r2"
    apply (rule exI [of _ "[(''source'', PInt i)]"])
    apply (rule exI [of _ "[(''source'', PInt j)]"])
    using ij by simp
  from 1 2 3 show ?thesis by blast
qed

text \<open>The theorem at a record that has a source tag and nothing else.\<close>

theorem malformed_record_keys_witness:
  "generate_plan_key [(''source'', PStr ''geonorge'')] = Inr ''unknown''
   \<and> generate_oslo_key bi7 [(''source'', PStr ''geonorge'')] = Inr ''oslo_general_7''"
proof -
  have a: "map_of [(''source'', PStr ''geonorge'')] ''plan_id'' = None"
    "map_of [(''source'', PStr ''geonorge'')] ''title'' = None"
    "map_of [(''source'', PStr ''geonorge'')] ''municipality'' = None"
    by simp_all
  from malformed_record_keys [OF a, of bi7] show ?thesis
    by (simp add: hash_bi7)
qed

text \<open>Claim C7 as stated fails for \<^verbatim>\<open>generate_plan_key\<close>: two different records with
  none of the three fields get the key \<^verbatim>\<open>unknown\<close>, which has no hash in it, and the
  aggregation pass merges them into one record.\<close>

theorem malformed_records_share_key:
  "generate_plan_key [(''source'', PStr ''geonorge'')] = Inr ''unknown''
   \<and> generate_plan_key [(''source'', PStr ''oslo_origo'')] = Inr ''unknown''
   \<and> cross_reference_data
        \<lparr>regulatory_plans = [[(''source'', PStr ''geonorge'')], [(''source'', PStr ''oslo_origo'')]],
         pdf_analyses = []\<rparr>
       = Inr \<lparr>unified_plans =
                 [[(''source'', PStr ''geonorge''),
                   (''sources'', PList [PStr ''geonorge'', PStr ''oslo_origo''])]],
              cross_references = 0,
              sources_summary = \<lparr>n_geonorge = 1, n_oslo_origo = 1, n_pdf_analyses = 0\<rparr>\<rparr>"
  by code_simp

section \<open>The merge resolvers\<close>

lemma plan_ab_key:
  "generate_plan_key plan_a = Inr ''unknown_plan_a''"
  "generate_plan_key plan_b = Inr ''unknown_plan_a''"
  by code_simp+

lemma merge_plan_ab:
  "merge_plan_data plan_a plan_b =
     Inr [(''source'', PStr ''geonorge''), (''title'', PStr ''Plan A''),
          (''keywords'', PList [PStr ''a'']), (''description'', PStr ''text''),
          (''sources'', PList [PStr ''geonorge'', PStr ''oslo_origo'']),
          (''status'', PStr ''vedtatt'')]"
  by code_simp

lemma merge_plan_aa:
  "merge_plan_data plan_a plan_a =
     Inr [(''source'', PStr ''geonorge''), (''title'', PStr ''Plan A''),
          (''keywords'', PList [PStr ''a'']), (''description'', PStr ''''),
          (''sources'', PList [PStr ''geonorge''])]"
  by code_simp

lemma merge_oslo_ab:
  "merge_oslo_data oslo_a oslo_b =
     Inr [(''source'', PStr ''oslo_pdf''), (''plan_id'', PStr ''P1''),
          (''oslo_areas'', PList [PStr ''frogner'', PStr ''sagene'']),
          (''oslo_relevance_score'', PInt 5),
          (''oslo_sources'', PList [PStr ''oslo_pdf'', PStr ''geonorge_oslo'']),
          (''oslo_terms'', PList [PStr ''vulkan''])]"
  by code_simp

lemma merge_oslo_aa:
  "merge_oslo_data oslo_a oslo_a =
     Inr [(''source'', PStr ''oslo_pdf''), (''plan_id'', PStr ''P1''),
          (''oslo_areas'', PList [PStr ''frogner'', PStr ''frogner'']),
          (''oslo_relevance_score'', PInt 3),
          (''oslo_sources'', PList [PStr ''oslo_pdf''])]"
  by code_simp

lemma example_records_distinct:
  "distinct (map fst plan_a)" "distinct (map fst plan_b)"
  "distinct (map fst oslo_a)" "distinct (map fst oslo_b)"
  by (simp_all add: plan_a_def plan_b_def oslo_a_def oslo_b_def)

text \<open>
  Claim C3.  The sentence of the specification the claim is drawn from gives three
  rules: scalar attributes are first-non-empty-wins, list-valued attributes are
  concatenated, and relevance scores keep the maximum.  The second and the third rule
  are the subject of claim C4; this claim is the first rule and the sources.  The
  incoming record has each key once, as every dictionary has.
  \<^item> \<^verbatim>\<open>merge_plan_data\<close>, when it returns a record: every field other than \<^verbatim>\<open>sources\<close>
    that is populated on \<^verbatim>\<open>existing\<close> keeps the value of \<^verbatim>\<open>existing\<close>; a field that is
    absent or empty on \<^verbatim>\<open>existing\<close> takes the value of the incoming record when that
    one is populated and the field is not \<^verbatim>\<open>source\<close>, and stays as it is otherwise.
  \<^item> \<^verbatim>\<open>merge_oslo_data\<close>, when it returns a record: every field other than
    \<^verbatim>\<open>oslo_sources\<close> keeps the value of \<^verbatim>\<open>existing\<close> when it is not one of
    \<^verbatim>\<open>oslo_areas\<close>, \<^verbatim>\<open>oslo_terms\<close> and \<^verbatim>\<open>oslo_relevance_score\<close>, and also when it is
    one of them and \<^verbatim>\<open>existing\<close> holds there a value that is neither a list nor a
    number; a field that \<^verbatim>\<open>existing\<close> does not have is copied from the incoming record
    exactly when it is one of the three and populated there.
  \<^item> In both, when the sources field of \<^verbatim>\<open>existing\<close> is a list or absent and the
    incoming record has a string as its \<^verbatim>\<open>source\<close>, the sources list of the result holds
    the source tags of \<^verbatim>\<open>existing\<close> and the source tag of the incoming record, and
    nothing else.
  \<^item> Both merges do return a record: \<^verbatim>\<open>merge_plan_data\<close> when the sources field of
    \<^verbatim>\<open>existing\<close> is a list or absent, \<^verbatim>\<open>merge_oslo_data\<close> when moreover the two area
    fields of both records are lists or absent and their scores integers or absent.
\<close>

theorem merge_existing_wins:
  assumes "distinct (map fst new)"
  shows "(\<forall>merged. merge_plan_data existing new = Inr merged \<longrightarrow>
            (\<forall>k. k \<noteq> ''sources'' \<longrightarrow>
               map_of merged k =
                 (if populated existing k then map_of existing k
                  else if k \<noteq> ''source'' \<and> populated new k then map_of new k
                  else map_of existing k))
          \<and> (\<forall>s. list_or_absent existing ''sources'' \<and> map_of new ''source'' = Some (PStr s) \<longrightarrow>
                (\<exists>l. map_of merged ''sources'' = Some (PList l)
                   \<and> set l = set (source_tags ''sources'' existing) \<union> {PStr s})))
       \<and> (\<forall>merged. merge_oslo_data existing new = Inr merged \<longrightarrow>
            (\<forall>k. k \<noteq> ''oslo_sources'' \<and> (k \<notin> set oslo_fields \<or> scalar_field existing k) \<longrightarrow>
               map_of merged k = map_of existing k)
          \<and> (\<forall>k. k \<noteq> ''oslo_sources'' \<and> map_of existing k = None \<longrightarrow>
               map_of merged k =
                 (if k \<in> set oslo_fields \<and> populated new k then map_of new k else None))
          \<and> (\<forall>s. list_or_absent existing ''oslo_sources'' \<and> map_of new ''source'' = Some (PStr s) \<longrightarrow>
                (\<exists>l. map_of merged ''oslo_sources'' = Some (PList l)
                   \<and> set l = set (source_tags ''oslo_sources'' existing) \<union> {PStr s})))
       \<and> (list_or_absent existing ''sources'' \<longrightarrow>
            (\<exists>merged. merge_plan_data existing new = Inr merged))
       \<and> (list_or_absent existing ''oslo_sources'' \<and> oslo_typed existing \<and> oslo_typed new \<longrightarrow>
            (\<exists>merged. merge_oslo_data existing new = Inr merged))"
proof (intro conjI allI impI)
  fix merged k
  assume m: "merge_plan_data existing new = Inr merged" and k: "k \<noteq> ''sources''"
  show "map_of merged k =
                 (if populated existing k then map_of existing k
                  else if k \<noteq> ''source'' \<and> populated new k then map_of new k
                  else map_of existing k)"
    by (rule merge_plan_data_fields [OF m assms k])
next
  fix merged s
  assume "merge_plan_data existing new = Inr merged"
    and "list_or_absent existing ''sources'' \<and> map_of new ''source'' = Some (PStr s)"
  then show "\<exists>l. map_of merged ''sources'' = Some (PList l)
                   \<and> set l = set (source_tags ''sources'' existing) \<union> {PStr s}"
    using merge_plan_data_sources by blast
next
  fix merged k
  assume "merge_oslo_data existing new = Inr merged"
    and "k \<noteq> ''oslo_sources'' \<and> (k \<notin> set oslo_fields \<or> scalar_field existing k)"
  then show "map_of merged k = map_of existing k"
    using merge_oslo_data_scalar by blast
next
  fix merged k
  assume "merge_oslo_data existing new = Inr merged"
    and "k \<noteq> ''oslo_sources'' \<and> map_of existing k = None"
  then show "map_of merged k =
                 (if k \<in> set oslo_fields \<and> populated new k then map_of new k else None)"
    using merge_oslo_data_absent by blast
next
  fix merged s
  assume "merge_oslo_data existing new = Inr merged"
    and "list_or_absent existing ''oslo_sources'' \<and> map_of new ''source'' = Some (PStr s)"
  then show "\<exists>l. map_of merged ''oslo_sources'' = Some (PList l)
                   \<and> set l = set (source_tags ''oslo_sources'' existing) \<union> {PStr s}"
    using merge_oslo_data_sources by blast
next
  assume "list_or_absent existing ''sources''"
  then show "\<exists>merged. merge_plan_data existing new = Inr merged"
    by (rule merge_plan_data_returns)
next
  assume "list_or_absent existing ''oslo_sources'' \<and> oslo_typed existing \<and> oslo_typed new"
  then show "\<exists>merged. merge_oslo_data existing new = Inr merged"
    using merge_oslo_data_returns by blast
qed


text \<open>The theorem at the two example plans and at the two example Oslo records: both
  merges return; the title of the first plan stays and its empty description is filled
  in; the identifier of the first Oslo record stays, the title of the second is not
  copied, and its terms, a field the first record lacks, are.\<close>

theorem merge_existing_wins_witness:
  "(\<exists>merged l. merge_plan_data plan_a plan_b = Inr merged
      \<and> map_of merged ''title'' = Some (PStr ''Plan A'')
      \<and> map_of merged ''description'' = Some (PStr ''text'')
      \<and> map_of merged ''sources'' = Some (PList l)
      \<and> set l = {PStr ''geonorge'', PStr ''oslo_origo''})
   \<and> (\<exists>merged l. merge_oslo_data oslo_a oslo_b = Inr merged
      \<and> map_of merged ''plan_id'' = Some (PStr ''P1'')
      \<and> map_of merged ''title'' = None
      \<and> map_of merged ''oslo_terms'' = Some (PList [PStr ''vulkan''])
      \<and> map_of merged ''oslo_sources'' = Some (PList l)
      \<and> set l = {PStr ''oslo_pdf'', PStr ''geonorge_oslo''})"
proof -
  note tp = merge_existing_wins [OF example_records_distinct(2), of plan_a]
  note to = merge_existing_wins [OF example_records_distinct(4), of oslo_a]
  have "list_or_absent plan_a ''sources''"
    by (simp add: list_or_absent_def plan_a_def)
  from tp [THEN conjunct2, THEN conjunct2, THEN conjunct1, rule_format, OF this]
  obtain mp where mp: "merge_plan_data plan_a plan_b = Inr mp" ..
  have "list_or_absent oslo_a ''oslo_sources'' \<and> oslo_typed oslo_a \<and> oslo_typed oslo_b"
    by (simp add: list_or_absent_def int_or_absent_def oslo_typed_def oslo_a_def oslo_b_def)
  from to [THEN conjunct2, THEN conjunct2, THEN conjunct2, rule_format, OF this]
  obtain mo where mo: "merge_oslo_data oslo_a oslo_b = Inr mo" ..
  note p = tp [THEN conjunct1, rule_format, OF mp]
  note o = to [THEN conjunct2, THEN conjunct1, rule_format, OF mo]
  have 1: "map_of mp ''title'' = Some (PStr ''Plan A'')"
    using p [THEN conjunct1, rule_format, of "''title''"]
    by (simp add: populated_def plan_a_def)
  have 2: "map_of mp ''description'' = Some (PStr ''text'')"
    using p [THEN conjunct1, rule_format, of "''description''"]
    by (simp add: populated_def plan_a_def plan_b_def)
  have 3: "\<exists>l. map_of mp ''sources'' = Some (PList l)
             \<and> set l = {PStr ''geonorge'', PStr ''oslo_origo''}"
    using p [THEN conjunct2, rule_format, of "''oslo_origo''"]
    by (simp add: list_or_absent_def source_tags_def dict_get_def plan_a_def plan_b_def
        insert_commute)
  have 4: "map_of mo ''plan_id'' = Some (PStr ''P1'')"
    using o [THEN conjunct1, rule_format, of "''plan_id''"]
    by (simp add: oslo_fields_def oslo_a_def)
  have 5: "map_of mo ''title'' = None"
    using o [THEN conjunct2, THEN conjunct1, rule_format, of "''title''"]
    by (simp add: oslo_fields_def oslo_a_def)
  have 6: "map_of mo ''oslo_terms'' = Some (PList [PStr ''vulkan''])"
    using o [THEN conjunct2, THEN conjunct1, rule_format, of "''oslo_terms''"]
    by (simp add: oslo_fields_def populated_def oslo_a_def oslo_b_def)
  have 7: "\<exists>l. map_of mo ''oslo_sources'' = Some (PList l)
             \<and> set l = {PStr ''oslo_pdf'', PStr ''geonorge_oslo''}"
    using o [THEN conjunct2, THEN conjunct2, rule_format, of "''geonorge_oslo''"]
    by (simp add: list_or_absent_def source_tags_def dict_get_def oslo_a_def oslo_b_def
        insert_commute)
  from 1 2 3 mp have a: "\<exists>merged l. merge_plan_data plan_a plan_b = Inr merged
      \<and> map_of merged ''title'' = Some (PStr ''Plan A'')
      \<and> map_of merged ''description'' = Some (PStr ''text'')
      \<and> map_of merged ''sources'' = Some (PList l)
      \<and> set l = {PStr ''geonorge'', PStr ''oslo_origo''}"
    by blast
  from 4 5 6 7 mo have b: "\<exists>merged l. merge_oslo_data oslo_a oslo_b = Inr merged
      \<and> map_of merged ''plan_id'' = Some (PStr ''P1'')
      \<and> map_of merged ''title'' = None
      \<and> map_of merged ''oslo_terms'' = Some (PList [PStr ''vulkan''])
      \<and> map_of merged ''oslo_sources'' = Some (PList l)
      \<and> set l = {PStr ''oslo_pdf'', PStr ''geonorge_oslo''}"
    by blast
  from a b show ?thesis by (rule conjI)
qed

text \<open>
  Claim C4, as the code has it.  When \<^verbatim>\<open>merge_oslo_data\<close> returns a record, then for
  each of the fields \<^verbatim>\<open>oslo_areas\<close>, \<^verbatim>\<open>oslo_terms\<close> and \<^verbatim>\<open>oslo_relevance_score\<close>: where
  \<^verbatim>\<open>existing\<close> holds a list and the incoming record a non-empty list, the result holds
  the first list followed by the second, duplicates kept; where \<^verbatim>\<open>existing\<close> holds an
  integer and the incoming record a non-zero integer, the result holds the greater of
  the two.  \<^verbatim>\<open>merge_plan_data\<close> joins no lists and takes no maximum: a field other than
  \<^verbatim>\<open>sources\<close> that is populated on \<^verbatim>\<open>existing\<close> keeps its value.
\<close>

theorem merge_lists_and_scores:
  "(\<forall>merged. merge_oslo_data existing new = Inr merged \<longrightarrow>
      (\<forall>f l n. f \<in> set oslo_fields \<and> map_of existing f = Some (PList l)
                \<and> map_of new f = Some (PList n) \<and> n \<noteq> [] \<longrightarrow>
           map_of merged f = Some (PList (l @ n)))
    \<and> (\<forall>f a b. f \<in> set oslo_fields \<and> map_of existing f = Some (PInt a)
                \<and> map_of new f = Some (PInt b) \<and> b \<noteq> 0 \<longrightarrow>
           map_of merged f = Some (PInt (max a b))))
   \<and> (\<forall>merged. merge_plan_data existing new = Inr merged \<longrightarrow>
      (\<forall>k. k \<noteq> ''sources'' \<and> populated existing k \<longrightarrow> map_of merged k = map_of existing k))"
proof (intro conjI allI impI)
  fix merged f l n
  assume m: "merge_oslo_data existing new = Inr merged"
    and h: "f \<in> set oslo_fields \<and> map_of existing f = Some (PList l)
                \<and> map_of new f = Some (PList n) \<and> n \<noteq> []"
  from merge_oslo_data_at [OF m] h obtain m0 m1 where
    x: "map_of m0 f = map_of existing f" "merge_oslo_field new f m0 = Inr m1"
      "map_of merged f = map_of m1 f"
    by blast
  from merge_oslo_field_concat [OF x(2), of l n] x(1,3) h
  show "map_of merged f = Some (PList (l @ n))" by simp
next
  fix merged f a b
  assume m: "merge_oslo_data existing new = Inr merged"
    and h: "f \<in> set oslo_fields \<and> map_of existing f = Some (PInt a)
                \<and> map_of new f = Some (PInt b) \<and> b \<noteq> 0"
  from merge_oslo_data_at [OF m] h obtain m0 m1 where
    x: "map_of m0 f = map_of existing f" "merge_oslo_field new f m0 = Inr m1"
      "map_of merged f = map_of m1 f"
    by blast
  from merge_oslo_field_max [OF x(2), of a b] x(1,3) h
  show "map_of merged f = Some (PInt (max a b))" by simp
next
  fix merged k
  assume m: "merge_plan_data existing new = Inr merged"
    and h: "k \<noteq> ''sources'' \<and> populated existing k"
  from m obtain m0 where a: "add_source ''sources'' existing new = Inr m0"
    and f: "merged = fold merge_plan_field new m0"
    by (auto simp: merge_plan_data_def split: sum.splits)
  from h add_source_other [OF a, of k] have same: "map_of m0 k = map_of existing k" by simp
  with h have "populated m0 k" by (simp add: populated_def)
  from fold_merge_plan_field_populated [OF this, of new] same f
  show "map_of merged k = map_of existing k" by simp
qed

text \<open>The theorem at the example records: the two area lists are joined, the greater
  score is kept, and \<^verbatim>\<open>merge_plan_data\<close> keeps the first plan's keywords.\<close>

theorem merge_lists_and_scores_witness:
  "(\<exists>merged. merge_oslo_data oslo_a oslo_b = Inr merged
      \<and> map_of merged ''oslo_areas'' = Some (PList [PStr ''frogner'', PStr ''sagene''])
      \<and> map_of merged ''oslo_relevance_score'' = Some (PInt 5))
   \<and> (\<exists>merged. merge_plan_data plan_a plan_b = Inr merged
      \<and> map_of merged ''keywords'' = Some (PList [PStr ''a'']))"
proof -
  note o = merge_lists_and_scores [of oslo_a oslo_b, THEN conjunct1, rule_format, OF merge_oslo_ab]
  note p = merge_lists_and_scores [of plan_a plan_b, THEN conjunct2, rule_format,
      OF merge_plan_ab]
  let ?mp = "[(''source'', PStr ''geonorge''), (''title'', PStr ''Plan A''),
          (''keywords'', PList [PStr ''a'']), (''description'', PStr ''text''),
          (''sources'', PList [PStr ''geonorge'', PStr ''oslo_origo'']),
          (''status'', PStr ''vedtatt'')]"
  let ?mo = "[(''source'', PStr ''oslo_pdf''), (''plan_id'', PStr ''P1''),
          (''oslo_areas'', PList [PStr ''frogner'', PStr ''sagene'']),
          (''oslo_relevance_score'', PInt 5),
          (''oslo_sources'', PList [PStr ''oslo_pdf'', PStr ''geonorge_oslo'']),
          (''oslo_terms'', PList [PStr ''vulkan''])]"
  have 1: "map_of ?mo ''oslo_areas'' = Some (PList ([PStr ''frogner''] @ [PStr ''sagene'']))"
    by (rule o [THEN conjunct1, rule_format]) (simp add: oslo_fields_def oslo_a_def oslo_b_def)
  have 2: "map_of ?mo ''oslo_relevance_score'' = Some (PInt (max 3 5))"
    by (rule o [THEN conjunct2, rule_format]) (simp add: oslo_fields_def oslo_a_def oslo_b_def)
  have 3: "map_of ?mp ''keywords'' = map_of plan_a ''keywords''"
    by (rule p) (simp add: populated_def plan_a_def)
  from 1 2 3 merge_oslo_ab merge_plan_ab show ?thesis
    by (simp add: plan_a_def)
qed

text \<open>Claim C4 as stated fails for \<^verbatim>\<open>merge_plan_data\<close>: both example plans populate the
  list-valued field \<^verbatim>\<open>keywords\<close>, and the result holds the first list, not the two
  joined.\<close>

theorem merge_plan_data_keeps_first_list:
  "map_of plan_a ''keywords'' = Some (PList [PStr ''a''])
   \<and> map_of plan_b ''keywords'' = Some (PList [PStr ''b''])
   \<and> merge_plan_data plan_a plan_b =
       Inr [(''source'', PStr ''geonorge''), (''title'', PStr ''Plan A''),
            (''keywords'', PList [PStr ''a'']), (''description'', PStr ''text''),
            (''sources'', PList [PStr ''geonorge'', PStr ''oslo_origo'']),
            (''status'', PStr ''vedtatt'')]"
  by (simp add: merge_plan_ab) (simp add: plan_a_def plan_b_def)

text \<open>
  Claim C5, as the code has it.  For a record \<open>r\<close> that has each key once: when
  \<^verbatim>\<open>merge_plan_data(r, r)\<close> returns a record, that record has the value of \<open>r\<close> in
  every field other than \<^verbatim>\<open>sources\<close>; when \<^verbatim>\<open>merge_oslo_data(r, r)\<close> returns a record,
  that record has the value of \<open>r\<close> in every field other than \<^verbatim>\<open>oslo_sources\<close>, but for
  the list-valued ones among \<^verbatim>\<open>oslo_areas\<close>, \<^verbatim>\<open>oslo_terms\<close> and
  \<^verbatim>\<open>oslo_relevance_score\<close>, which hold the list of \<open>r\<close> twice over.
\<close>

theorem merge_with_itself:
  assumes "distinct (map fst r)"
  shows "(\<forall>m. merge_plan_data r r = Inr m \<longrightarrow>
            (\<forall>k. k \<noteq> ''sources'' \<longrightarrow> map_of m k = map_of r k))
       \<and> (\<forall>m. merge_oslo_data r r = Inr m \<longrightarrow>
            (\<forall>k. k \<noteq> ''oslo_sources'' \<longrightarrow>
               map_of m k =
                 (if k \<in> set oslo_fields
                  then (case map_of r k of Some (PList l) \<Rightarrow> Some (PList (l @ l)) | v \<Rightarrow> v)
                  else map_of r k)))"
proof (intro conjI allI impI)
  fix m k
  assume m: "merge_plan_data r r = Inr m" and k: "k \<noteq> ''sources''"
  from merge_plan_data_fields [OF m assms k] show "map_of m k = map_of r k"
    by (simp split: if_splits)
next
  fix m k
  assume m: "merge_oslo_data r r = Inr m" and k: "k \<noteq> ''oslo_sources''"
  show "map_of m k =
          (if k \<in> set oslo_fields
           then (case map_of r k of Some (PList l) \<Rightarrow> Some (PList (l @ l)) | v \<Rightarrow> v)
           else map_of r k)"
  proof (cases "k \<in> set oslo_fields")
    case True
    from merge_oslo_data_at [OF m True] obtain m0 m1 where
      x: "map_of m0 k = map_of r k" "merge_oslo_field r k m0 = Inr m1" "map_of m k = map_of m1 k"
      by blast
    from merge_oslo_field_self [OF x(2,1)] x(3) True show ?thesis by simp
  next
    case False
    from merge_oslo_data_other [OF m k False] False show ?thesis by simp
  qed
qed

text \<open>The theorem at the first example plan and at the first example Oslo record.\<close>

theorem merge_with_itself_witness:
  "(\<exists>m. merge_plan_data plan_a plan_a = Inr m
      \<and> map_of m ''keywords'' = Some (PList [PStr ''a''])
      \<and> map_of m ''description'' = Some (PStr ''''))
   \<and> (\<exists>m. merge_oslo_data oslo_a oslo_a = Inr m
      \<and> map_of m ''plan_id'' = Some (PStr ''P1'')
      \<and> map_of m ''oslo_relevance_score'' = Some (PInt 3)
      \<and> map_of m ''oslo_areas'' = Some (PList [PStr ''frogner'', PStr ''frogner'']))"
proof -
  note p = merge_with_itself [OF example_records_distinct(1), THEN conjunct1, rule_format,
      OF merge_plan_aa]
  note o = merge_with_itself [OF example_records_distinct(3), THEN conjunct2, rule_format,
      OF merge_oslo_aa]
  let ?mp = "[(''source'', PStr ''geonorge''), (''title'', PStr ''Plan A''),
          (''keywords'', PList [PStr ''a'']), (''description'', PStr ''''),
          (''sources'', PList [PStr ''geonorge''])]"
  let ?mo = "[(''source'', PStr ''oslo_pdf''), (''plan_id'', PStr ''P1''),
          (''oslo_areas'', PList [PStr ''frogner'', PStr ''frogner'']),
          (''oslo_relevance_score'', PInt 3),
          (''oslo_sources'', PList [PStr ''oslo_pdf''])]"
  have 1: "map_of ?mp ''keywords'' = Some (PList [PStr ''a''])"
    using p [of "''keywords''"] by (simp add: plan_a_def)
  have 2: "map_of ?mp ''description'' = Some (PStr '''')"
    using p [of "''description''"] by (simp add: plan_a_def)
  have 3: "map_of ?mo ''plan_id'' = Some (PStr ''P1'')"
    using o [of "''plan_id''"] by (simp add: oslo_a_def oslo_fields_def)
  have 4: "map_of ?mo ''oslo_relevance_score'' = Some (PInt 3)"
    using o [of "''oslo_relevance_score''"] by (simp add: oslo_a_def oslo_fields_def)
  have 5: "map_of ?mo ''oslo_areas'' = Some (PList [PStr ''frogner'', PStr ''frogner''])"
    using o [of "''oslo_areas''"] by (simp add: oslo_a_def oslo_fields_def)
  from 1 2 3 4 5 merge_plan_aa merge_oslo_aa show ?thesis by blast
qed

text \<open>Claim C5 as stated fails for \<^verbatim>\<open>merge_oslo_data\<close>: merging the first example Oslo
  record into itself gives a record whose area list has two elements where the record
  has one.\<close>

theorem merge_oslo_self_doubles:
  "map_of oslo_a ''oslo_areas'' = Some (PList [PStr ''frogner''])
   \<and> merge_oslo_data oslo_a oslo_a =
       Inr [(''source'', PStr ''oslo_pdf''), (''plan_id'', PStr ''P1''),
            (''oslo_areas'', PList [PStr ''frogner'', PStr ''frogner'']),
            (''oslo_relevance_score'', PInt 3),
            (''oslo_sources'', PList [PStr ''oslo_pdf''])]"
  by (simp add: merge_oslo_aa) (simp add: oslo_a_def)

text \<open>
  Claim C6, as the code has it.  When \<^verbatim>\<open>merge_plan_data\<close> returns a record, every field
  populated on \<^verbatim>\<open>existing\<close> and every field other than \<^verbatim>\<open>source\<close> populated on the
  incoming record is populated in it.  When \<^verbatim>\<open>merge_oslo_data\<close> returns a record, every
  field populated on \<^verbatim>\<open>existing\<close> is populated in it, and of the fields of the incoming
  record those among \<^verbatim>\<open>oslo_areas\<close>, \<^verbatim>\<open>oslo_terms\<close> and \<^verbatim>\<open>oslo_relevance_score\<close> that
  \<^verbatim>\<open>existing\<close> does not have; its other fields are not carried over.
\<close>

theorem merge_keeps_populated:
  assumes "distinct (map fst new)"
  shows "(\<forall>m. merge_plan_data existing new = Inr m \<longrightarrow>
            (\<forall>k. populated existing k \<or> (populated new k \<and> k \<noteq> ''source'') \<longrightarrow> populated m k))
       \<and> (\<forall>m. merge_oslo_data existing new = Inr m \<longrightarrow>
            (\<forall>k. populated existing k
                  \<or> (populated new k \<and> k \<in> set oslo_fields \<and> map_of existing k = None)
               \<longrightarrow> populated m k))"
proof (intro conjI allI impI)
  fix m k
  assume m: "merge_plan_data existing new = Inr m"
    and k: "populated existing k \<or> (populated new k \<and> k \<noteq> ''source'')"
  show "populated m k" by (rule merge_plan_data_populated [OF m assms k])
next
  fix m k
  assume m: "merge_oslo_data existing new = Inr m"
    and k: "populated existing k
            \<or> (populated new k \<and> k \<in> set oslo_fields \<and> map_of existing k = None)"
  show "populated m k"
  proof (cases "populated existing k")
    case True
    then show ?thesis by (rule merge_oslo_data_populated [OF m])
  next
    case False
    with k have n: "populated new k" "k \<in> set oslo_fields" "map_of existing k = None"
      by simp_all
    from merge_oslo_data_at [OF m n(2)] obtain m0 m1 where
      x: "map_of m0 k = map_of existing k" "merge_oslo_field new k m0 = Inr m1"
        "map_of m k = map_of m1 k"
      by blast
    from x(1) n(3) have "map_of m0 k = None" by simp
    from merge_oslo_field_new [OF x(2) this n(1)] x(3) n(1) show ?thesis
      by (simp add: populated_def)
  qed
qed

text \<open>The theorem at the example records: the status that only the second plan has and
  the terms that only the second Oslo record has are in the result.\<close>

theorem merge_keeps_populated_witness:
  "(\<exists>m. merge_plan_data plan_a plan_b = Inr m \<and> populated m ''title'' \<and> populated m ''status'')
   \<and> (\<exists>m. merge_oslo_data oslo_a oslo_b = Inr m
         \<and> populated m ''plan_id'' \<and> populated m ''oslo_terms'')"
proof -
  note p = merge_keeps_populated [OF example_records_distinct(2), of plan_a, THEN conjunct1,
      rule_format, OF merge_plan_ab]
  note o = merge_keeps_populated [OF example_records_distinct(4), of oslo_a, THEN conjunct2,
      rule_format, OF merge_oslo_ab]
  have 1: "populated plan_a ''title''" "populated plan_b ''status''"
    "populated oslo_a ''plan_id''" "populated oslo_b ''oslo_terms''"
    "map_of oslo_a ''oslo_terms'' = None"
    by (simp_all add: populated_def plan_a_def plan_b_def oslo_a_def oslo_b_def)
  from 1 have 2: "populated plan_a ''title'' \<or> (populated plan_b ''title'' \<and> ''title'' \<noteq> ''source'')"
    "populated plan_a ''status'' \<or> (populated plan_b ''status'' \<and> ''status'' \<noteq> ''source'')"
    by simp_all
  from 1 have 3: "populated oslo_a ''plan_id''
      \<or> (populated oslo_b ''plan_id'' \<and> ''plan_id'' \<in> set oslo_fields
          \<and> map_of oslo_a ''plan_id'' = None)"
    "populated oslo_a ''oslo_terms''
      \<or> (populated oslo_b ''oslo_terms'' \<and> ''oslo_terms'' \<in> set oslo_fields
          \<and> map_of oslo_a ''oslo_terms'' = None)"
    by (simp_all add: oslo_fields_def)
  from p [OF 2(1)] p [OF 2(2)] o [OF 3(1)] o [OF 3(2)] merge_plan_ab merge_oslo_ab
  show ?thesis by blast
qed

text \<open>Claim C6 as stated fails for \<^verbatim>\<open>merge_oslo_data\<close>: the second example Oslo record
  has a title, the first has none, and the result has none.\<close>

theorem merge_oslo_drops_title:
  "populated oslo_b ''title''
   \<and> map_of oslo_a ''title'' = None
   \<and> merge_oslo_data oslo_a oslo_b =
       Inr [(''source'', PStr ''oslo_pdf''), (''plan_id'', PStr ''P1''),
            (''oslo_areas'', PList [PStr ''frogner'', PStr ''sagene'']),
            (''oslo_relevance_score'', PInt 5),
            (''oslo_sources'', PList [PStr ''oslo_pdf'', PStr ''geonorge_oslo'']),
            (''oslo_terms'', PList [PStr ''vulkan''])]"
  by (simp add: merge_oslo_ab) (simp add: populated_def oslo_a_def oslo_b_def)

section \<open>The coverage summary\<close>

lemma oslo_run_result:
  "cross_reference_oslo_data bi7 oslo_run =
     Inr \<lparr>oslo_unified_data =
             [[(''source'', PStr ''geonorge_oslo''), (''plan_id'', PStr ''P1''),
               (''title'', PStr ''T''),
               (''oslo_areas'', PList [PStr ''sagene'', PStr ''frogner'']),
               (''oslo_relevance_score'', PInt 5),
               (''oslo_terms'', PList [PStr ''vulkan'']),
               (''oslo_sources'', PList [PStr ''geonorge_oslo'', PStr ''oslo_pdf''])]],
           total_oslo_items = 1,
           source_breakdown =
             \<lparr>n_origo_datasets = 0, n_geonorge_oslo = 1, n_oslo_pdfs = 1,
                total_oslo_sources = 2\<rparr>,
           oslo_coverage =
             \<lparr>covered_oslo_areas = 2, total_oslo_areas = 16,
                coverage_percentage = 25 / 2,
                missing_areas =
                  [''sentrum'', ''gr'' @ [CHR 0xFC] @ ''nerl'' @ [CHR 0xF8] @ ''kka'',
                   ''gamle oslo'', ''st. hanshaugen'', ''ullern'', ''vestre aker'',
                   ''nordre aker'', ''bjerke'', ''grorud'', ''stovner'', ''alna'',
                   [CHR 0xF8] @ ''stensj'' @ [CHR 0xF8], ''nordstrand'',
                   ''s'' @ [CHR 0xF8] @ ''ndre nordstrand'']\<rparr>\<rparr>"
  by code_simp

lemma classifier_examples:
  "map_of (analyze_oslo_content (\<lambda>t. PNone) ''Frogner'') ''oslo_areas''
     = Some (PList [PStr ''frogner''])"
  "map_of (analyze_oslo_content (\<lambda>t. PNone) ''Sagene'') ''oslo_areas''
     = Some (PList [PStr ''sagene''])"
  by code_simp+

text \<open>
  Claim C9.  When the area list of every input record that has one is the area list
  the classifier \<^verbatim>\<open>analyze_oslo_content\<close> gives for some text, and the aggregation pass
  \<^verbatim>\<open>cross_reference_oslo_data\<close> returns a result, then in its coverage summary the
  number of covered areas is at most the number of configured areas, which is sixteen,
  and the coverage percentage is at most 100.
\<close>

theorem coverage_bounded:
  assumes "\<forall>item \<in> set (origo_datasets od @ reguleringsplaner od @ pdf_documents od).
             map_of item ''oslo_areas'' = None
             \<or> (\<exists>xp text. map_of item ''oslo_areas''
                            = map_of (analyze_oslo_content xp text) ''oslo_areas'')"
    and "cross_reference_oslo_data bi od = Inr res"
  shows "covered_oslo_areas (oslo_coverage res) \<le> total_oslo_areas (oslo_coverage res)
       \<and> total_oslo_areas (oslo_coverage res) = 16
       \<and> coverage_percentage (oslo_coverage res) \<le> 100"
proof -
  let ?items = "origo_datasets od @ reguleringsplaner od @ pdf_documents od"
  from assms(2) obtain u cov where u: "oslo_unify bi ?items = Inr u"
    and c: "assess_oslo_coverage u = Inr cov" and r: "oslo_coverage res = cov"
    by (auto simp: cross_reference_oslo_data_def Let_def split: sum.splits)
  have "\<forall>item \<in> set ?items. areas_ok item"
    using assms(1) areas_ok_classifier by blast
  from oslo_unify_areas [OF u this] have "\<forall>r \<in> snd ` set u. areas_ok r" .
  from assess_oslo_coverage_bounded [OF c this] r
  have "covered_oslo_areas (oslo_coverage res) \<le> total_oslo_areas (oslo_coverage res)"
    "coverage_percentage (oslo_coverage res) \<le> 100" by simp_all
  moreover have "length oslo_keywords_omrader = 16"
    by (simp add: oslo_keywords_omrader_def)
  with c r have "total_oslo_areas (oslo_coverage res) = 16"
    by (auto simp: assess_oslo_coverage_def split: sum.splits)
      (metis oslo_coverage.select_convs(2))
  ultimately show ?thesis by simp
qed

text \<open>The theorem at the run with the two example records, whose area lists the
  classifier gives for the texts \<^verbatim>\<open>Sagene\<close> and \<^verbatim>\<open>Frogner\<close>: two of sixteen areas are
  covered.\<close>

theorem coverage_bounded_witness:
  "\<exists>res. cross_reference_oslo_data bi7 oslo_run = Inr res
      \<and> covered_oslo_areas (oslo_coverage res) = 2
      \<and> covered_oslo_areas (oslo_coverage res) \<le> total_oslo_areas (oslo_coverage res)
      \<and> total_oslo_areas (oslo_coverage res) = 16
      \<and> coverage_percentage (oslo_coverage res) \<le> 100"
proof -
  have a: "map_of oslo_a ''oslo_areas''
             = map_of (analyze_oslo_content (\<lambda>t. PNone) ''Frogner'') ''oslo_areas''"
    by (simp add: classifier_examples) (simp add: oslo_a_def)
  have b: "map_of oslo_b ''oslo_areas''
             = map_of (analyze_oslo_content (\<lambda>t. PNone) ''Sagene'') ''oslo_areas''"
    by (simp add: classifier_examples) (simp add: oslo_b_def)
  have h: "\<forall>item \<in> set (origo_datasets oslo_run @ reguleringsplaner oslo_run
                           @ pdf_documents oslo_run).
             map_of item ''oslo_areas'' = None
             \<or> (\<exists>xp text. map_of item ''oslo_areas''
                            = map_of (analyze_oslo_content xp text) ''oslo_areas'')"
    using a b by (auto simp: oslo_run_def)
  from coverage_bounded [OF h oslo_run_result] oslo_run_result show ?thesis by simp
qed

section \<open>The aggregation pass and the hash seed\<close>

lemma generate_oslo_key_with_plan_id:
  assumes "truthy (dict_get item ''plan_id'' (PStr ''''))"
  shows "generate_oslo_key (bi\<lparr>py_hash := h\<rparr>) item = generate_oslo_key bi item"
  using assms
  by (simp add: generate_oslo_key_def Let_def py_str_def split: sum.splits pyval.splits)

lemma fold_err_cong_on:
  assumes "\<And>x s. x \<in> set xs \<Longrightarrow> f x s = g x s"
  shows "fold_err f xs s = fold_err g xs s"
  using assms by (induction xs arbitrary: s) (auto split: sum.splits)

lemma frogner_titles:
  "py_lower ''Frogner nord'' = ''frogner nord''" "py_lower ''Frogner syd'' = ''frogner syd''"
  "first_area_in ''frogner nord'' = Some ''frogner''"
  "first_area_in ''frogner syd'' = Some ''frogner''"
  by code_simp+

lemma frogner_keys:
  "generate_oslo_key (bi7\<lparr>py_hash := hash_seed_1\<rparr>) frogner_nord = Inr ''oslo_frogner_992''"
  "generate_oslo_key (bi7\<lparr>py_hash := hash_seed_1\<rparr>) frogner_syd = Inr ''oslo_frogner_320''"
  "generate_oslo_key (bi7\<lparr>py_hash := hash_seed_1795\<rparr>) frogner_nord = Inr ''oslo_frogner_3''"
  "generate_oslo_key (bi7\<lparr>py_hash := hash_seed_1795\<rparr>) frogner_syd = Inr ''oslo_frogner_3''"
  by (simp_all add: generate_oslo_key_def frogner_nord_def frogner_syd_def dict_get_def
      frogner_titles hash_mod_1000_def hash_seed_1_def hash_seed_1795_def str_of_nat.simps)

text \<open>
  Claim C8, as the code has it.  \<^verbatim>\<open>cross_reference_oslo_data\<close> gives the same result
  under any two hash functions when every input record has a non-empty \<^verbatim>\<open>plan_id\<close>:
  then no key is made from a hash.  (The pass of the other system,
  \<^verbatim>\<open>cross_reference_data\<close>, calls no hash function at all; in the model it has no
  built-in among its arguments.)
\<close>

theorem oslo_pass_hash_independent:
  assumes "\<forall>item \<in> set (origo_datasets od @ reguleringsplaner od @ pdf_documents od).
             truthy (dict_get item ''plan_id'' (PStr ''''))"
  shows "cross_reference_oslo_data (bi\<lparr>py_hash := ha\<rparr>) od
           = cross_reference_oslo_data (bi\<lparr>py_hash := hb\<rparr>) od"
proof -
  let ?items = "origo_datasets od @ reguleringsplaner od @ pdf_documents od"
  have "oslo_unify (bi\<lparr>py_hash := ha\<rparr>) ?items = oslo_unify (bi\<lparr>py_hash := hb\<rparr>) ?items"
    unfolding oslo_unify_def
  proof (rule fold_err_cong_on)
    fix x s
    assume "x \<in> set ?items"
    with assms have "truthy (dict_get x ''plan_id'' (PStr ''''))" by blast
    then have "generate_oslo_key (bi\<lparr>py_hash := ha\<rparr>) x = generate_oslo_key (bi\<lparr>py_hash := hb\<rparr>) x"
      by (simp add: generate_oslo_key_with_plan_id)
    then show "unify_step (generate_oslo_key (bi\<lparr>py_hash := ha\<rparr>)) merge_oslo_data x s
             = unify_step (generate_oslo_key (bi\<lparr>py_hash := hb\<rparr>)) merge_oslo_data x s"
      by (simp add: unify_step_def)
  qed
  then show ?thesis by (simp add: cross_reference_oslo_data_def)
qed

text \<open>The theorem at the run with the two example records, both of which have the
  identifier \<^verbatim>\<open>P1\<close>, and the hash functions of the two seeds.\<close>

theorem oslo_pass_hash_independent_witness:
  "cross_reference_oslo_data (bi7\<lparr>py_hash := hash_seed_1\<rparr>) oslo_run
     = cross_reference_oslo_data (bi7\<lparr>py_hash := hash_seed_1795\<rparr>) oslo_run
   \<and> (\<exists>res. cross_reference_oslo_data (bi7\<lparr>py_hash := hash_seed_1\<rparr>) oslo_run = Inr res
         \<and> total_oslo_items res = 1)"
proof -
  have h: "\<forall>item \<in> set (origo_datasets oslo_run @ reguleringsplaner oslo_run
                           @ pdf_documents oslo_run).
             truthy (dict_get item ''plan_id'' (PStr ''''))"
    by (simp add: oslo_run_def oslo_a_def oslo_b_def dict_get_def)
  have "cross_reference_oslo_data (bi7\<lparr>py_hash := hash_seed_1\<rparr>) oslo_run
          = cross_reference_oslo_data (bi7\<lparr>py_hash := py_hash bi7\<rparr>) oslo_run"
    by (rule oslo_pass_hash_independent [OF h])
  then have e1: "cross_reference_oslo_data (bi7\<lparr>py_hash := hash_seed_1\<rparr>) oslo_run
          = cross_reference_oslo_data bi7 oslo_run"
    by simp
  have e: "cross_reference_oslo_data (bi7\<lparr>py_hash := hash_seed_1\<rparr>) oslo_run
     = cross_reference_oslo_data (bi7\<lparr>py_hash := hash_seed_1795\<rparr>) oslo_run"
    by (rule oslo_pass_hash_independent [OF h])
  have r: "\<exists>res. cross_reference_oslo_data (bi7\<lparr>py_hash := hash_seed_1\<rparr>) oslo_run = Inr res
         \<and> total_oslo_items res = 1"
    unfolding e1 oslo_run_result by simp
  from e r show ?thesis by (rule conjI)
qed

text \<open>Claim C8 as stated fails: on the two records without identifier whose titles
  name Frogner, the run with seed 1 keeps two records (keys \<^verbatim>\<open>oslo_frogner_992\<close> and
  \<^verbatim>\<open>oslo_frogner_320\<close>) and the run with seed 1795 merges them into one (key
  \<^verbatim>\<open>oslo_frogner_3\<close> twice).\<close>

theorem oslo_pass_depends_on_hash_seed:
  "cross_reference_oslo_data (bi7\<lparr>py_hash := hash_seed_1\<rparr>) frogner_run
     = Inr \<lparr>oslo_unified_data = [frogner_nord, frogner_syd],
            total_oslo_items = 2,
            source_breakdown =
              \<lparr>n_origo_datasets = 1, n_geonorge_oslo = 1, n_oslo_pdfs = 0,
                 total_oslo_sources = 2\<rparr>,
            oslo_coverage =
              \<lparr>covered_oslo_areas = 0, total_oslo_areas = 16, coverage_percentage = 0,
                 missing_areas = oslo_keywords_omrader\<rparr>\<rparr>
   \<and> cross_reference_oslo_data (bi7\<lparr>py_hash := hash_seed_1795\<rparr>) frogner_run
     = Inr \<lparr>oslo_unified_data =
              [[(''source'', PStr ''oslo_origo''), (''title'', PStr ''Frogner nord''),
                (''oslo_sources'', PList [PStr ''oslo_origo'', PStr ''geonorge_oslo''])]],
            total_oslo_items = 1,
            source_breakdown =
              \<lparr>n_origo_datasets = 1, n_geonorge_oslo = 1, n_oslo_pdfs = 0,
                 total_oslo_sources = 2\<rparr>,
            oslo_coverage =
              \<lparr>covered_oslo_areas = 0, total_oslo_areas = 16, coverage_percentage = 0,
                 missing_areas = oslo_keywords_omrader\<rparr>\<rparr>
   \<and> cross_reference_oslo_data (bi7\<lparr>py_hash := hash_seed_1\<rparr>) frogner_run
       \<noteq> cross_reference_oslo_data (bi7\<lparr>py_hash := hash_seed_1795\<rparr>) frogner_run"
proof -
  have m: "merge_oslo_data frogner_nord frogner_syd =
             Inr [(''source'', PStr ''oslo_origo''), (''title'', PStr ''Frogner nord''),
                  (''oslo_sources'', PList [PStr ''oslo_origo'', PStr ''geonorge_oslo''])]"
    by code_simp
  have u1: "oslo_unify (bi7\<lparr>py_hash := hash_seed_1\<rparr>) [frogner_nord, frogner_syd]
              = Inr [(''oslo_frogner_992'', frogner_nord), (''oslo_frogner_320'', frogner_syd)]"
    by (simp add: oslo_unify_def unify_step_def frogner_keys)
  have u2: "oslo_unify (bi7\<lparr>py_hash := hash_seed_1795\<rparr>) [frogner_nord, frogner_syd]
              = Inr [(''oslo_frogner_3'',
                      [(''source'', PStr ''oslo_origo''), (''title'', PStr ''Frogner nord''),
                       (''oslo_sources'', PList [PStr ''oslo_origo'', PStr ''geonorge_oslo''])])]"
    by (simp add: oslo_unify_def unify_step_def frogner_keys m)
  have n: "length oslo_keywords_omrader = 16"
    by (simp add: oslo_keywords_omrader_def)
  have c1: "assess_oslo_coverage
              [(''oslo_frogner_992'', frogner_nord), (''oslo_frogner_320'', frogner_syd)]
            = Inr \<lparr>covered_oslo_areas = 0, total_oslo_areas = 16, coverage_percentage = 0,
                   missing_areas = oslo_keywords_omrader\<rparr>"
    by (simp add: assess_oslo_coverage_def cover_item_def has_key_def frogner_nord_def
        frogner_syd_def n)
  have c2: "assess_oslo_coverage
              [(''oslo_frogner_3'',
                [(''source'', PStr ''oslo_origo''), (''title'', PStr ''Frogner nord''),
                 (''oslo_sources'', PList [PStr ''oslo_origo'', PStr ''geonorge_oslo''])])]
            = Inr \<lparr>covered_oslo_areas = 0, total_oslo_areas = 16, coverage_percentage = 0,
                   missing_areas = oslo_keywords_omrader\<rparr>"
    by (simp add: assess_oslo_coverage_def cover_item_def has_key_def n)
  have r1: "cross_reference_oslo_data (bi7\<lparr>py_hash := hash_seed_1\<rparr>) frogner_run
     = Inr \<lparr>oslo_unified_data = [frogner_nord, frogner_syd],
            total_oslo_items = 2,
            source_breakdown =
              \<lparr>n_origo_datasets = 1, n_geonorge_oslo = 1, n_oslo_pdfs = 0,
                 total_oslo_sources = 2\<rparr>,
            oslo_coverage =
              \<lparr>covered_oslo_areas = 0, total_oslo_areas = 16, coverage_percentage = 0,
                 missing_areas = oslo_keywords_omrader\<rparr>\<rparr>"
    by (simp add: cross_reference_oslo_data_def frogner_run_def u1 c1 get_oslo_source_summary_def)
  have r2: "cross_reference_oslo_data (bi7\<lparr>py_hash := hash_seed_1795\<rparr>) frogner_run
     = Inr \<lparr>oslo_unified_data =
              [[(''source'', PStr ''oslo_origo''), (''title'', PStr ''Frogner nord''),
                (''oslo_sources'', PList [PStr ''oslo_origo'', PStr ''geonorge_oslo''])]],
            total_oslo_items = 1,
            source_breakdown =
              \<lparr>n_origo_datasets = 1, n_geonorge_oslo = 1, n_oslo_pdfs = 0,
                 total_oslo_sources = 2\<rparr>,
            oslo_coverage =
              \<lparr>covered_oslo_areas = 0, total_oslo_areas = 16, coverage_percentage = 0,
                 missing_areas = oslo_keywords_omrader\<rparr>\<rparr>"
    by (simp add: cross_reference_oslo_data_def frogner_run_def u2 c2 get_oslo_source_summary_def)
  show ?thesis unfolding r1 r2 by simp
qed

section \<open>The Oslo merge changes the list objects of its first argument\<close>

lemma merge_oslo_st_examples:
  "\<exists>st' merged. merge_oslo_data_st st_ex hrec_a hrec_b = Inr (st', merged)"
  "\<exists>st' merged. merge_oslo_data_st st_ex hrec_a hrec_a = Inr (st', merged)"
  by (simp_all add: merge_oslo_data_st_def add_source_st_def st_ex_def hrec_a_def hrec_b_def
      has_key_def field_get_def new_list_def Let_def extend_obj_def oslo_fields_def
      merge_oslo_field_st_def max_field_def)

text \<open>
  Claim C10.  Let \<^verbatim>\<open>merge_oslo_data(existing, new)\<close> return, let \<open>f\<close> be one of
  \<^verbatim>\<open>oslo_areas\<close>, \<^verbatim>\<open>oslo_terms\<close> and \<^verbatim>\<open>oslo_relevance_score\<close>, let \<^verbatim>\<open>existing\<close> hold
  a list object at \<open>f\<close> and \<^verbatim>\<open>new\<close> a populated value there (both in use in the store
  before the call).  Then the record returned holds the very list object of
  \<^verbatim>\<open>existing\<close> at \<open>f\<close>; after the call that object has its old elements followed by
  at least one more, so \<^verbatim>\<open>existing\<close>, read after the call, is no longer what it was;
  when no other field of \<^verbatim>\<open>existing\<close> holds that object or the object \<^verbatim>\<open>new\<close> has at
  \<open>f\<close>, the elements added are exactly those of the value of \<^verbatim>\<open>new\<close>; and when a
  record is merged with itself, the list object has its old elements twice.
\<close>

theorem merge_oslo_data_mutates_existing:
  assumes "merge_oslo_data_st st existing new = Inr (st', merged)"
    and "f \<in> set oslo_fields"
    and "map_of existing f = Some (FListRef a)" and "a < fresh st"
    and "map_of new f = Some nv" and "allocated st nv" and "truthy (read_val st nv)"
  shows "map_of merged f = Some (FListRef a)
       \<and> (\<exists>ys. ys \<noteq> [] \<and> objs st' a = objs st a @ ys)
       \<and> read_record st' existing \<noteq> read_record st existing
       \<and> (held_only_by existing f (FListRef a) \<and> held_only_by existing f nv \<longrightarrow>
            (\<exists>ys. py_iter (read_val st nv) = Inr ys \<and> objs st' a = objs st a @ ys))
       \<and> (new = existing \<and> held_only_by existing f (FListRef a) \<longrightarrow>
            objs st' a = objs st a @ objs st a)"
proof -
  from assms(1) obtain st1 m0 where
    a: "add_source_st ''oslo_sources'' st existing new = Inr (st1, m0)"
    and fo: "fold_err (merge_oslo_field_st new) oslo_fields (st1, m0) = Inr (st', merged)"
    by (rule merge_oslo_data_stE)
  have fs: "f \<noteq> ''oslo_sources''" using assms(2) oslo_fields_distinct(2) by auto
  have nf: "has_key new f" "field_get new f FNone = nv"
    using assms(5) by (simp_all add: has_key_def field_get_def)
  have e1: "store_extends st st1" by (rule add_source_st_extends [OF a])
  have m0f: "map_of m0 f = Some (FListRef a)"
    using add_source_st_other [OF a fs] assms(3) by simp
  from fold_merge_oslo_field_st_extend [OF fo oslo_fields_distinct(1) assms(2) m0f
      store_extends_fresh [OF e1 assms(4)] nf(1)]
    store_extends_truthy [OF e1 assms(6,7)] store_extends_allocated [OF e1 assms(6)] nf(2)
  obtain ys where ys: "map_of merged f = Some (FListRef a)" "ys \<noteq> []" "objs st' a = objs st1 a @ ys"
    by auto
  from store_extends_obj [OF e1 assms(4)] obtain zs where zs: "objs st1 a = objs st a @ zs" ..
  from ys zs have 2: "\<exists>ys. ys \<noteq> [] \<and> objs st' a = objs st a @ ys" by auto
  have 3: "read_record st' existing \<noteq> read_record st existing"
  proof
    assume "read_record st' existing = read_record st existing"
    from read_record_eqD [OF this assms(3)] 2 show False by auto
  qed
  have 4: "\<exists>ys. py_iter (read_val st nv) = Inr ys \<and> objs st' a = objs st a @ ys"
    if h: "held_only_by existing f (FListRef a)" "held_only_by existing f nv"
  proof -
    from h(1) fs have sa: "map_of existing ''oslo_sources'' \<noteq> Some (FListRef a)"
      by (auto simp: held_only_by_def)
    from add_source_st_obj [OF a assms(4) sa] have oa: "objs st1 a = objs st a" .
    have "read_val st1 nv = read_val st nv"
    proof (rule read_val_cong_obj)
      fix b assume b: "nv = FListRef b"
      with h(2) fs have "map_of existing ''oslo_sources'' \<noteq> Some (FListRef b)"
        by (auto simp: held_only_by_def)
      moreover from b assms(6) have "b < fresh st" by (simp add: allocated_def)
      ultimately show "objs st1 b = objs st b" using add_source_st_obj [OF a] by simp
    qed
    then have rd: "read_val st1 (field_get new f FNone) = read_val st nv" using nf(2) by simp
    have rest: "\<forall>g \<in> set oslo_fields. g \<noteq> f \<longrightarrow> map_of m0 g \<noteq> Some (FListRef a)
            \<and> (\<forall>b. field_get new f FNone = FListRef b \<longrightarrow> map_of m0 g \<noteq> Some (FListRef b))"
    proof (intro ballI impI)
      fix g assume g: "g \<in> set oslo_fields" "g \<noteq> f"
      then have "g \<noteq> ''oslo_sources''" using oslo_fields_distinct(2) by auto
      from add_source_st_other [OF a this] have same: "map_of m0 g = map_of existing g" .
      from h g(2) nf(2) same
      show "map_of m0 g \<noteq> Some (FListRef a)
            \<and> (\<forall>b. field_get new f FNone = FListRef b \<longrightarrow> map_of m0 g \<noteq> Some (FListRef b))"
        by (auto simp: held_only_by_def)
    qed
    from fold_merge_oslo_field_st_exact [OF fo oslo_fields_distinct(1) assms(2) m0f nf(1) _ rest]
      store_extends_truthy [OF e1 assms(6,7)] nf(2) rd oa
    show ?thesis by simp
  qed
  have 5: "objs st' a = objs st a @ objs st a"
    if h: "new = existing" "held_only_by existing f (FListRef a)"
  proof -
    from h(1) assms(3,5) have nv: "nv = FListRef a" by simp
    with 4 [OF h(2)] h(2) show ?thesis by simp
  qed
  from ys(1) 2 3 4 5 show ?thesis by blast
qed

text \<open>The theorem at the two example records in the example store, for the field
  \<^verbatim>\<open>oslo_areas\<close>: the list object at address 0, the one of the first record, ends up
  with both area names, and with its own area name twice when the first record is merged
  with itself.\<close>

theorem merge_oslo_data_mutates_existing_witness:
  "(\<exists>st' merged. merge_oslo_data_st st_ex hrec_a hrec_b = Inr (st', merged)
      \<and> map_of merged ''oslo_areas'' = Some (FListRef 0)
      \<and> objs st_ex 0 = [PStr ''frogner'']
      \<and> objs st' 0 = [PStr ''frogner'', PStr ''sagene'']
      \<and> read_record st' hrec_a \<noteq> read_record st_ex hrec_a)
   \<and> (\<exists>st' merged. merge_oslo_data_st st_ex hrec_a hrec_a = Inr (st', merged)
      \<and> objs st' 0 = [PStr ''frogner'', PStr ''frogner''])"
proof -
  have f: "''oslo_areas'' \<in> set oslo_fields" by (simp add: oslo_fields_def)
  have a: "map_of hrec_a ''oslo_areas'' = Some (FListRef 0)" "0 < fresh st_ex"
    "allocated st_ex (FListRef 0)" "truthy (read_val st_ex (FListRef 0))"
    by (simp_all add: hrec_a_def st_ex_def allocated_def)
  have b: "map_of hrec_b ''oslo_areas'' = Some (FListRef 1)"
    "allocated st_ex (FListRef 1)" "truthy (read_val st_ex (FListRef 1))"
    by (simp_all add: hrec_b_def st_ex_def allocated_def)
  have h: "held_only_by hrec_a ''oslo_areas'' (FListRef 0)"
    "held_only_by hrec_a ''oslo_areas'' (FListRef 1)"
    by (simp_all add: held_only_by_def hrec_a_def)
  have o: "objs st_ex 0 = [PStr ''frogner'']"
    "py_iter (read_val st_ex (FListRef 1)) = Inr [PStr ''sagene'']"
    by (simp_all add: st_ex_def)
  from merge_oslo_st_examples(1) obtain st1 m1 where
    1: "merge_oslo_data_st st_ex hrec_a hrec_b = Inr (st1, m1)" by blast
  from merge_oslo_data_mutates_existing [OF 1 f a(1,2) b] h o
  have r1: "map_of m1 ''oslo_areas'' = Some (FListRef 0)"
    "objs st1 0 = [PStr ''frogner'', PStr ''sagene'']"
    "read_record st1 hrec_a \<noteq> read_record st_ex hrec_a"
    by auto
  from merge_oslo_st_examples(2) obtain st2 m2 where
    2: "merge_oslo_data_st st_ex hrec_a hrec_a = Inr (st2, m2)" by blast
  from merge_oslo_data_mutates_existing [OF 2 f a(1,2) a(1,3,4)] h(1) o(1)
  have r2: "objs st2 0 = [PStr ''frogner'', PStr ''frogner'']"
    by auto
  from 1 2 r1 r2 o(1) show ?thesis by blast
qed

end
